theory Spec2Isabelle
  imports Complex_Main "HOL-Library.Log_Nat"
begin

section \<open>The uptime ledger of csct-down\<close>

text \<open>
  The repository probes one host and keeps a small ledger of its uptime. The ledger is a
  JavaScript object that is read from a store (\<open>status.json\<close> for the scheduled script,
  \<open>localStorage\<close> for the page), updated by \<open>computeDurations\<close>, completed by the caller
  with the probe's latency and error, and written back.

  This theory embeds the functions that do this: \<open>computeDurations\<close>, \<open>readStatusFile\<close> and
  \<open>main\<close> of the scheduled script, and \<open>getStoredStatus\<close>, \<open>getDefaultStatus\<close>,
  \<open>computeDurations\<close> and \<open>checkServerStatus\<close> of \<open>is-csct.status.js\<close>.
\<close>

subsection \<open>Values\<close>

text \<open>
  A timestamp is kept in the ledger as a string. \<open>Iso t\<close> is the string that
  \<open>toISOString\<close> writes for the instant \<open>t\<close> (milliseconds since the epoch) and that
  \<open>new Date\<close> reads back as \<open>t\<close>; \<open>NotADate\<close> is any other non-empty string, whose
  \<open>getTime()\<close> is \<open>NaN\<close>. A field that is \<open>null\<close>, absent or the empty string is falsy in
  the source and is \<open>None\<close> here.
\<close>

datatype datestr = Iso int | NotADate

text \<open>\<open>new Date(s).getTime()\<close>; \<open>None\<close> is \<open>NaN\<close>.\<close>

definition getTime :: "datestr \<Rightarrow> int option" where
  "getTime s = (case s of Iso t \<Rightarrow> Some t | NotADate \<Rightarrow> None)"

text \<open>\<open>now.toISOString()\<close>, for a valid \<open>Date\<close> (the callers pass \<open>new Date()\<close>).\<close>

definition toISOString :: "int \<Rightarrow> datestr" where
  "toISOString t = Iso t"

text \<open>
  An incident as line 77 to 82 of \<open>computeDurations\<close> builds it. The field \<open>id\<close> of the
  source is \<open>incident_id\<close> here.
\<close>

record incident =
  startTime :: datestr
  endTime :: datestr
  duration :: int
  incident_id :: int

text \<open>
  The ledger. Its numbers are rationals, which every double is. The engine is embedded
  twice below: \<open>computeDurations\<close> divides and adds exactly, and
  \<open>computeDurations_rounded\<close> rounds each result as the source's doubles do. The
  incident list and the outage counter are optional, since the older default ledger and
  ledgers stored by the older code have neither; so are the three fields that only the
  callers write.
\<close>

record ledger =
  lastOnline :: "datestr option"
  lastStatus :: string
  lastStatusChange :: "datestr option"
  currentStreakSeconds :: rat
  totalUpSeconds :: rat
  totalDownSeconds :: rat
  lastChecked :: "datestr option"
  downtimeIncidents :: "incident list option"
  totalOutages :: "int option"
  latency :: "int option"
  error :: "string option"
  portTest :: "(int \<times> bool) option"

subsection \<open>The falsy defaults of the source\<close>

text \<open>\<open>x || 0\<close> on a number: \<open>0\<close> is falsy, every other number is itself.\<close>

definition num_or0 :: "rat \<Rightarrow> rat" where
  "num_or0 x = (if x = 0 then 0 else x)"

text \<open>\<open>prevStatus.totalOutages || 0\<close>: absent and \<open>0\<close> are falsy.\<close>

definition outages_or0 :: "int option \<Rightarrow> int" where
  "outages_or0 x = (case x of None \<Rightarrow> 0 | Some n \<Rightarrow> (if n = 0 then 0 else n))"

text \<open>\<open>prevStatus.downtimeIncidents || []\<close>: an array, even an empty one, is truthy.\<close>

definition incidents_or_empty :: "incident list option \<Rightarrow> incident list" where
  "incidents_or_empty x = (case x of None \<Rightarrow> [] | Some xs \<Rightarrow> xs)"

subsection \<open>The ledger engine\<close>

text \<open>
  Lines 46 to 53 of \<open>computeDurations\<close>: the seconds since the previous check, clamped at
  zero, and zero when there was no previous check or its timestamp does not parse.
\<close>

definition deltaSeconds :: "ledger \<Rightarrow> int \<Rightarrow> rat" where
  "deltaSeconds prevStatus now =
     (case lastChecked prevStatus of
        None \<Rightarrow> 0
      | Some s \<Rightarrow>
          (case getTime s of
             None \<Rightarrow> 0
           | Some t \<Rightarrow> max 0 (of_int (now - t) / 1000)))"

text \<open>
  Line 74: \<open>Math.max(0, (now.getTime() - downtimeStart.getTime()) / 1000)\<close>. \<open>None\<close> is
  \<open>NaN\<close>, which \<open>Math.max\<close> propagates and for which the test \<open>> 0\<close> of line 76 is false.
\<close>

definition downtimeDuration :: "datestr \<Rightarrow> int \<Rightarrow> rat option" where
  "downtimeDuration downtimeStart now =
     (case getTime downtimeStart of
        None \<Rightarrow> None
      | Some t \<Rightarrow> Some (max 0 (of_int (now - t) / 1000)))"

text \<open>
  \<open>computeDurations\<close> of the scheduled script (and, word for word, of the later pages),
  in exact arithmetic. The first argument is what \<open>Date.now()\<close> returns when line 81 reads
  the wall clock for the \<open>id\<close> of a new incident; \<open>now\<close> is \<open>now.getTime()\<close>.
  \<open>Math.round\<close> rounds halves up, as \<open>round\<close> does.
\<close>

definition computeDurations :: "int \<Rightarrow> ledger \<Rightarrow> int \<Rightarrow> bool \<Rightarrow> ledger" where
  "computeDurations clock prevStatus now isOnline =
     (let updated = prevStatus;
          nowIso = toISOString now;
          delta = deltaSeconds prevStatus now;
          updated =
            (if lastStatus prevStatus = ''online''
             then updated\<lparr>totalUpSeconds := num_or0 (totalUpSeconds prevStatus) + delta\<rparr>
             else if lastStatus prevStatus = ''offline''
             then updated\<lparr>totalDownSeconds := num_or0 (totalDownSeconds prevStatus) + delta\<rparr>
             else updated);
          newStatus = (if isOnline then ''online'' else ''offline'');
          wasOffline = (lastStatus prevStatus = ''offline'');
          updated =
            (if newStatus \<noteq> lastStatus prevStatus
             then
               (let updated = updated\<lparr>lastStatus := newStatus,
                                        lastStatusChange := Some nowIso\<rparr>;
                    updated =
                      (case lastStatusChange prevStatus of
                         None \<Rightarrow> updated
                       | Some downtimeStart \<Rightarrow>
                           (if isOnline \<and> wasOffline
                            then
                              (case downtimeDuration downtimeStart now of
                                 None \<Rightarrow> updated
                               | Some d \<Rightarrow>
                                   (if d > 0
                                    then updated
                                      \<lparr>downtimeIncidents :=
                                         Some (\<lparr>startTime = downtimeStart,
                                                 endTime = nowIso,
                                                 duration = round d,
                                                 incident_id = clock\<rparr>
                                               # take 9 (incidents_or_empty
                                                          (downtimeIncidents prevStatus))),
                                       totalOutages :=
                                         Some (outages_or0 (totalOutages prevStatus) + 1)\<rparr>
                                    else updated))
                            else updated))
                in updated\<lparr>currentStreakSeconds := 0\<rparr>)
             else updated\<lparr>currentStreakSeconds :=
                            num_or0 (currentStreakSeconds prevStatus) + delta\<rparr>);
          updated = (if isOnline then updated\<lparr>lastOnline := Some nowIso\<rparr> else updated);
          updated = updated\<lparr>downtimeIncidents :=
                               Some (incidents_or_empty (downtimeIncidents updated))\<rparr>;
          updated = updated\<lparr>totalOutages := Some (outages_or0 (totalOutages updated))\<rparr>
      in updated\<lparr>lastChecked := Some nowIso\<rparr>)"

text \<open>
  The default ledger of \<open>readStatusFile\<close> (lines 24 to 34); the fields it does not write
  are absent.
\<close>

definition defaultStructure :: ledger where
  "defaultStructure =
     \<lparr>lastOnline = None, lastStatus = ''unknown'', lastStatusChange = None,
      currentStreakSeconds = 0, totalUpSeconds = 0, totalDownSeconds = 0,
      lastChecked = None, downtimeIncidents = Some [], totalOutages = Some 0,
      latency = None, error = None, portTest = None\<rparr>"

subsection \<open>The arithmetic of the source\<close>

text \<open>
  The numbers of the source are IEEE 754 doubles, and every arithmetic operation of
  JavaScript returns the double nearest to its exact result, the one with the even
  significand when two are equally near. The exponent is not bounded here: no overflow
  and no subnormal numbers, which the magnitudes of this program (the milliseconds of a
  \<open>Date\<close>, seconds of uptime) do not reach.

  \<open>ties_even a\<close> is the integer nearest to \<open>a\<close>, the even one of two equally near.
\<close>

definition ties_even :: "rat \<Rightarrow> int" where
  "ties_even a =
     (let f = \<lfloor>a\<rfloor>; r = a - of_int f
      in if r < 1 / 2 then f else if 1 / 2 < r then f + 1 else if even f then f else f + 1)"

text \<open>
  The binary exponent of a positive rational: the \<open>k\<close> with \<open>2 powi k \<le> x < 2 powi (k + 1)\<close>,
  found from the bit lengths of numerator and denominator.
\<close>

definition binade :: "rat \<Rightarrow> int" where
  "binade x =
     (case quotient_of x of
        (p, q) \<Rightarrow> (let k = bitlen p - bitlen q in if 2 powi k \<le> x then k else k - 1))"

text \<open>A positive rational rounded to 53 significant bits.\<close>

definition double_pos :: "rat \<Rightarrow> rat" where
  "double_pos x = of_int (ties_even (x / 2 powi (binade x - 52))) * 2 powi (binade x - 52)"

text \<open>The double nearest to \<open>x\<close>.\<close>

definition double_round :: "rat \<Rightarrow> rat" where
  "double_round x =
     (if x = 0 then 0 else if x < 0 then - double_pos (- x) else double_pos x)"

text \<open>
  Lines 46 to 53 and line 74 with the division rounded by \<open>fl\<close>. The subtraction of two
  timestamps is exact in doubles, both being integers below \<open>2 ^ 53\<close>.
\<close>

definition deltaSeconds_rounded :: "(rat \<Rightarrow> rat) \<Rightarrow> ledger \<Rightarrow> int \<Rightarrow> rat" where
  "deltaSeconds_rounded fl prevStatus now =
     (case lastChecked prevStatus of
        None \<Rightarrow> 0
      | Some s \<Rightarrow>
          (case getTime s of
             None \<Rightarrow> 0
           | Some t \<Rightarrow> max 0 (fl (of_int (now - t) / 1000))))"

definition downtimeDuration_rounded :: "(rat \<Rightarrow> rat) \<Rightarrow> datestr \<Rightarrow> int \<Rightarrow> rat option" where
  "downtimeDuration_rounded fl downtimeStart now =
     (case getTime downtimeStart of
        None \<Rightarrow> None
      | Some t \<Rightarrow> Some (max 0 (fl (of_int (now - t) / 1000))))"

text \<open>
  \<open>computeDurations\<close> once more, with the arithmetic of the source: \<open>fl\<close> rounds the
  quotients of lines 52 and 74 and the sums of lines 57, 59 and 97. With \<open>double_round\<close>
  for \<open>fl\<close> this is what the code computes; with no rounding it is \<open>computeDurations\<close>
  above. The increment of the outage counter is exact in doubles and is left as it is.
\<close>

definition computeDurations_rounded ::
    "(rat \<Rightarrow> rat) \<Rightarrow> int \<Rightarrow> ledger \<Rightarrow> int \<Rightarrow> bool \<Rightarrow> ledger" where
  "computeDurations_rounded fl clock prevStatus now isOnline =
     (let updated = prevStatus;
          nowIso = toISOString now;
          delta = deltaSeconds_rounded fl prevStatus now;
          updated =
            (if lastStatus prevStatus = ''online''
             then updated\<lparr>totalUpSeconds := fl (num_or0 (totalUpSeconds prevStatus) + delta)\<rparr>
             else if lastStatus prevStatus = ''offline''
             then updated\<lparr>totalDownSeconds :=
                            fl (num_or0 (totalDownSeconds prevStatus) + delta)\<rparr>
             else updated);
          newStatus = (if isOnline then ''online'' else ''offline'');
          wasOffline = (lastStatus prevStatus = ''offline'');
          updated =
            (if newStatus \<noteq> lastStatus prevStatus
             then
               (let updated = updated\<lparr>lastStatus := newStatus,
                                        lastStatusChange := Some nowIso\<rparr>;
                    updated =
                      (case lastStatusChange prevStatus of
                         None \<Rightarrow> updated
                       | Some downtimeStart \<Rightarrow>
                           (if isOnline \<and> wasOffline
                            then
                              (case downtimeDuration_rounded fl downtimeStart now of
                                 None \<Rightarrow> updated
                               | Some d \<Rightarrow>
                                   (if d > 0
                                    then updated
                                      \<lparr>downtimeIncidents :=
                                         Some (\<lparr>startTime = downtimeStart,
                                                 endTime = nowIso,
                                                 duration = round d,
                                                 incident_id = clock\<rparr>
                                               # take 9 (incidents_or_empty
                                                          (downtimeIncidents prevStatus))),
                                       totalOutages :=
                                         Some (outages_or0 (totalOutages prevStatus) + 1)\<rparr>
                                    else updated))
                            else updated))
                in updated\<lparr>currentStreakSeconds := 0\<rparr>)
             else updated\<lparr>currentStreakSeconds :=
                            fl (num_or0 (currentStreakSeconds prevStatus) + delta)\<rparr>);
          updated = (if isOnline then updated\<lparr>lastOnline := Some nowIso\<rparr> else updated);
          updated = updated\<lparr>downtimeIncidents :=
                               Some (incidents_or_empty (downtimeIncidents updated))\<rparr>;
          updated = updated\<lparr>totalOutages := Some (outages_or0 (totalOutages updated))\<rparr>
      in updated\<lparr>lastChecked := Some nowIso\<rparr>)"

subsection \<open>The scheduled script: one cycle and a run of cycles\<close>

text \<open>What \<open>pingHost\<close> resolves to: \<open>{ online, latency, error }\<close>.\<close>

record observation =
  online :: bool
  obs_latency :: "int option"
  obs_error :: "string option"

text \<open>
  \<open>main\<close> of the script that tests port 22: the ledger it writes to \<open>status.json\<close>, from
  the ledger it read, the time of the run and what \<open>pingHost\<close> resolved to. The latency is
  stored only when it is not \<open>null\<close>; the error is logged and not stored.
\<close>

definition main :: "int \<Rightarrow> ledger \<Rightarrow> int \<Rightarrow> observation \<Rightarrow> ledger" where
  "main clock prevStatus now obs =
     (let nextStatus = computeDurations clock prevStatus now (online obs);
          nextStatus =
            (case obs_latency obs of
               None \<Rightarrow> nextStatus
             | Some l \<Rightarrow> nextStatus\<lparr>latency := Some l\<rparr>)
      in nextStatus\<lparr>portTest := Some (22, online obs)\<rparr>)"

text \<open>
  A run of checks, each on the ledger the one before it returned. A check is the wall
  clock reading, the time \<open>now\<close> and the observation \<open>isOnline\<close>.
\<close>

fun run :: "ledger \<Rightarrow> (int \<times> int \<times> bool) list \<Rightarrow> ledger" where
  "run l [] = l"
| "run l ((clock, now, isOnline) # cs) = run (computeDurations clock l now isOnline) cs"

text \<open>The times of the checks of a run.\<close>

definition times_of :: "(int \<times> int \<times> bool) list \<Rightarrow> int list" where
  "times_of cs = map (\<lambda>(clock, now, isOnline). now) cs"

text \<open>A run of checks in the arithmetic of the source.\<close>

fun run_rounded :: "(rat \<Rightarrow> rat) \<Rightarrow> ledger \<Rightarrow> (int \<times> int \<times> bool) list \<Rightarrow> ledger" where
  "run_rounded fl l [] = l"
| "run_rounded fl l ((clock, now, isOnline) # cs) =
     run_rounded fl (computeDurations_rounded fl clock l now isOnline) cs"

text \<open>The deltas that the checks of a run compute, each on the ledger it is given.\<close>

fun deltas_applied :: "(rat \<Rightarrow> rat) \<Rightarrow> ledger \<Rightarrow> (int \<times> int \<times> bool) list \<Rightarrow> rat list" where
  "deltas_applied fl l [] = []"
| "deltas_applied fl l ((clock, now, isOnline) # cs) =
     deltaSeconds_rounded fl l now
     # deltas_applied fl (computeDurations_rounded fl clock l now isOnline) cs"

text \<open>
  The deltas of a run by the status they were spent in, from the checks alone: the
  seconds between a check and the next one, clamped at zero, count for the status that
  the earlier check observed. Every pair of consecutive checks gives one delta, to the
  list of \<open>True\<close> (online) or to the list of \<open>False\<close> (offline), never to both.
\<close>

fun deltas_while :: "(rat \<Rightarrow> rat) \<Rightarrow> bool \<Rightarrow> (int \<times> int \<times> bool) list \<Rightarrow> rat list" where
  "deltas_while fl status ((clock, t, seen) # (clock', t', seen') # cs) =
     (if seen = status then [max 0 (fl (of_int (t' - t) / 1000))] else [])
     @ deltas_while fl status ((clock', t', seen') # cs)"
| "deltas_while fl status cs = []"

text \<open>A list of numbers added from the left, every sum rounded.\<close>

definition rounded_sum :: "(rat \<Rightarrow> rat) \<Rightarrow> rat list \<Rightarrow> rat" where
  "rounded_sum fl ds = foldl (\<lambda>a d. fl (a + d)) 0 ds"

text \<open>
  The sum of the inter-check deltas of a run, in the specification's words: for every
  check but the first, the seconds since the check before it, clamped at zero.
\<close>

fun inter_check_deltas :: "int list \<Rightarrow> rat" where
  "inter_check_deltas (t # t' # ts) =
     max 0 (of_int (t' - t) / 1000) + inter_check_deltas (t' # ts)"
| "inter_check_deltas ts = 0"

text \<open>
  The specification's condition for an incident: the ledger was offline, the observation
  is online, and the last status change is a timestamp strictly before \<open>now\<close>.
\<close>

definition recovery :: "ledger \<Rightarrow> int \<Rightarrow> bool \<Rightarrow> bool" where
  "recovery prevStatus now isOnline =
     (lastStatus prevStatus = ''offline'' \<and> isOnline \<and>
      (case lastStatusChange prevStatus of
         Some (Iso t) \<Rightarrow> t < now
       | _ \<Rightarrow> False))"

text \<open>
  The incident that a recovery at \<open>now\<close> from an outage begun at \<open>t\<close> records, in the
  specification's words.
\<close>

definition outage_incident :: "int \<Rightarrow> int \<Rightarrow> int \<Rightarrow> incident" where
  "outage_incident clock t now =
     \<lparr>startTime = Iso t, endTime = Iso now,
      duration = round (of_int (now - t) / 1000 :: rat), incident_id = clock\<rparr>"

text \<open>The start of the outage that a recovery closes (\<open>0\<close> when there is none).\<close>

definition outage_start :: "ledger \<Rightarrow> int" where
  "outage_start prevStatus =
     (case lastStatusChange prevStatus of Some (Iso t) \<Rightarrow> t | _ \<Rightarrow> 0)"

text \<open>The ledger with the \<open>id\<close> of its most recent incident replaced.\<close>

definition with_newest_id :: "int \<Rightarrow> ledger \<Rightarrow> ledger" where
  "with_newest_id c l =
     (case downtimeIncidents l of
        Some (i # rest) \<Rightarrow> l\<lparr>downtimeIncidents := Some (i\<lparr>incident_id := c\<rparr> # rest)\<rparr>
      | _ \<Rightarrow> l)"

subsection \<open>The page of \<open>is-csct.status.js\<close>\<close>

text \<open>
  Its \<open>computeDurations\<close> (lines 141 to 179) is the older one: the same accounting, no
  incidents.
\<close>

definition computeDurations_status_js :: "ledger \<Rightarrow> int \<Rightarrow> bool \<Rightarrow> ledger" where
  "computeDurations_status_js prevStatus now isOnline =
     (let updated = prevStatus;
          nowIso = toISOString now;
          delta = deltaSeconds prevStatus now;
          updated =
            (if lastStatus prevStatus = ''online''
             then updated\<lparr>totalUpSeconds := num_or0 (totalUpSeconds prevStatus) + delta\<rparr>
             else if lastStatus prevStatus = ''offline''
             then updated\<lparr>totalDownSeconds := num_or0 (totalDownSeconds prevStatus) + delta\<rparr>
             else updated);
          newStatus = (if isOnline then ''online'' else ''offline'');
          updated =
            (if newStatus \<noteq> lastStatus prevStatus
             then updated\<lparr>lastStatus := newStatus, lastStatusChange := Some nowIso,
                           currentStreakSeconds := 0\<rparr>
             else updated\<lparr>currentStreakSeconds :=
                            num_or0 (currentStreakSeconds prevStatus) + delta\<rparr>);
          updated = (if isOnline then updated\<lparr>lastOnline := Some nowIso\<rparr> else updated)
      in updated\<lparr>lastChecked := Some nowIso\<rparr>)"

text \<open>
  How the \<open>fetch\<close> of \<open>checkServerStatus\<close> ends: it resolves, after so many
  milliseconds, or it rejects with an error of some \<open>name\<close>.
\<close>

datatype fetch_outcome = Resolved int | Rejected string

text \<open>
  \<open>checkServerStatus\<close> (lines 99 to 139): the ledger it saves, from the stored ledger,
  the time of the check and the outcome of the \<open>fetch\<close>.
\<close>

definition checkServerStatus :: "ledger \<Rightarrow> int \<Rightarrow> fetch_outcome \<Rightarrow> ledger" where
  "checkServerStatus prevStatus now outcome =
     (case outcome of
        Resolved ms \<Rightarrow>
          (let newStatus = computeDurations_status_js prevStatus now True
           in newStatus\<lparr>latency := Some ms\<rparr>)
      | Rejected name \<Rightarrow>
          (let newStatus = computeDurations_status_js prevStatus now False;
               newStatus = newStatus\<lparr>latency := None\<rparr>
           in newStatus\<lparr>error :=
                Some (if name = ''AbortError'' then ''timeout'' else ''connection failed'')\<rparr>))"

text \<open>\<open>getDefaultStatus\<close> (lines 39 to 49): no incident list and no outage counter.\<close>

definition getDefaultStatus :: ledger where
  "getDefaultStatus =
     \<lparr>lastOnline = None, lastStatus = ''unknown'', lastStatusChange = None,
      currentStreakSeconds = 0, totalUpSeconds = 0, totalDownSeconds = 0,
      lastChecked = None, downtimeIncidents = None, totalOutages = None,
      latency = None, error = None, portTest = None\<rparr>"

subsection \<open>Loading the ledger\<close>

text \<open>
  What a library call can throw. \<open>JSON.parse\<close> is a parameter of the two loaders: it
  returns the ledger that the text serialises, or throws. A text that parses to a value
  that is not a ledger object (\<open>null\<close>, a number) is outside this model.
\<close>

datatype exn = ReadError | SyntaxError | StorageError

text \<open>
  \<open>fs.readFileSync(STATUS_FILE, 'utf8')\<close>: the file is its text, or \<open>None\<close> when it is
  missing or unreadable, and the read throws.
\<close>

definition readFileSync :: "string option \<Rightarrow> exn + string" where
  "readFileSync file = (case file of None \<Rightarrow> Inl ReadError | Some raw \<Rightarrow> Inr raw)"

text \<open>\<open>readStatusFile\<close> (lines 18 to 36), with its \<open>try\<close> and \<open>catch\<close>.\<close>

definition readStatusFile :: "(string \<Rightarrow> exn + ledger) \<Rightarrow> string option \<Rightarrow> exn + ledger" where
  "readStatusFile JSON_parse file =
     (case (case readFileSync file of
              Inl e \<Rightarrow> Inl e
            | Inr raw \<Rightarrow> JSON_parse raw) of
        Inl e \<Rightarrow> Inr defaultStructure
      | Inr status \<Rightarrow> Inr status)"

text \<open>
  The browser's store under the page's key: access is refused and \<open>getItem\<close> throws, or
  it holds a text or nothing.
\<close>

datatype storage = Refused | Item "string option"

definition getItem :: "storage \<Rightarrow> exn + string option" where
  "getItem st = (case st of Refused \<Rightarrow> Inl StorageError | Item v \<Rightarrow> Inr v)"

text \<open>
  \<open>getStoredStatus\<close> (lines 30 to 37). The test \<open>stored ? \<dots> : \<dots>\<close> is false for
  \<open>null\<close> and for the empty string.
\<close>

definition getStoredStatus :: "(string \<Rightarrow> exn + ledger) \<Rightarrow> storage \<Rightarrow> exn + ledger" where
  "getStoredStatus JSON_parse st =
     (case (case getItem st of
              Inl e \<Rightarrow> Inl e
            | Inr stored \<Rightarrow>
                (case stored of
                   None \<Rightarrow> Inr getDefaultStatus
                 | Some s \<Rightarrow> if s = [] then Inr getDefaultStatus else JSON_parse s)) of
        Inl e \<Rightarrow> Inr getDefaultStatus
      | Inr status \<Rightarrow> Inr status)"

text \<open>A \<open>JSON.parse\<close> that rejects every text, and one that reads every text as \<open>l\<close>.\<close>

definition parse_none :: "string \<Rightarrow> exn + ledger" where
  "parse_none raw = Inl SyntaxError"

definition parse_as :: "ledger \<Rightarrow> string \<Rightarrow> exn + ledger" where
  "parse_as l raw = Inr l"

subsection \<open>The order of the incident list\<close>

text \<open>An incident that ended strictly later than another; both ends must be timestamps.\<close>

definition ended_after :: "incident \<Rightarrow> incident \<Rightarrow> bool" where
  "ended_after a b =
     (case (getTime (endTime a), getTime (endTime b)) of
        (Some x, Some y) \<Rightarrow> y < x
      | _ \<Rightarrow> False)"

text \<open>A list of incidents, each ended strictly later than all that follow it.\<close>

definition recent_first :: "incident list \<Rightarrow> bool" where
  "recent_first xs = sorted_wrt ended_after xs"

text \<open>An incident that ended at \<open>t\<close> or before.\<close>

definition ended_by :: "int \<Rightarrow> incident \<Rightarrow> bool" where
  "ended_by t i = (case getTime (endTime i) of Some e \<Rightarrow> e \<le> t | None \<Rightarrow> False)"

text \<open>
  A ledger whose listed incidents all ended no later than its last status change (nothing
  is asked when that is not a timestamp).
\<close>

definition closed_by_change :: "ledger \<Rightarrow> bool" where
  "closed_by_change l =
     (case lastStatusChange l of
        Some (Iso t) \<Rightarrow> list_all (ended_by t) (incidents_or_empty (downtimeIncidents l))
      | _ \<Rightarrow> True)"

text \<open>
  What a run with non-decreasing timestamps keeps true: the list is most recent first, its
  incidents ended no later than the last status change, which is no later than the last
  check; and the list is empty as long as no status change is recorded.
\<close>

definition checked_since :: "ledger \<Rightarrow> int \<Rightarrow> bool" where
  "checked_since l t = (case lastChecked l of Some (Iso c) \<Rightarrow> t \<le> c | _ \<Rightarrow> False)"

definition orderly :: "ledger \<Rightarrow> bool" where
  "orderly l =
     (recent_first (incidents_or_empty (downtimeIncidents l)) \<and>
      (case lastStatusChange l of
         Some (Iso t) \<Rightarrow>
           list_all (ended_by t) (incidents_or_empty (downtimeIncidents l)) \<and>
           checked_since l t
       | _ \<Rightarrow> incidents_or_empty (downtimeIncidents l) = []))"

subsection \<open>Example ledgers\<close>

text \<open>
  A ledger that has been offline since the check at 120 s, last checked then: the ledger
  before the fourth check of the specification's scenario.
\<close>

definition offline_since_120 :: ledger where
  "offline_since_120 =
     \<lparr>lastOnline = Some (Iso 60000), lastStatus = ''offline'',
      lastStatusChange = Some (Iso 120000), currentStreakSeconds = 0,
      totalUpSeconds = 120, totalDownSeconds = 0, lastChecked = Some (Iso 120000),
      downtimeIncidents = Some [], totalOutages = Some 0,
      latency = None, error = None, portTest = None\<rparr>"

text \<open>A stored ledger that lists one incident while its counter of outages says none.\<close>

definition undercounted :: ledger where
  "undercounted = defaultStructure\<lparr>downtimeIncidents := Some [outage_incident 1 0 60000]\<rparr>"

text \<open>
  A ledger reached while the clock stepped back: online at 0 s, offline at 100 s, online
  again at 200 s (the first incident), and then a check at 10 s that finds the host
  offline.
\<close>

definition stepped_back :: ledger where
  "stepped_back =
     run defaultStructure [(1, 0, True), (2, 100000, False), (3, 200000, True), (4, 10000, False)]"

text \<open>
  A ledger with a full list: ten incidents of 60 s, the most recent first, of twelve
  outages counted, offline again since 1100 s.
\<close>

definition ten_incidents :: "incident list" where
  "ten_incidents =
     map (\<lambda>k. outage_incident k (k * 100000) (k * 100000 + 60000))
       [10, 9, 8, 7, 6, 5, 4, 3, 2, 1]"

definition full_list :: ledger where
  "full_list =
     \<lparr>lastOnline = Some (Iso 1090000), lastStatus = ''offline'',
      lastStatusChange = Some (Iso 1100000), currentStreakSeconds = 0,
      totalUpSeconds = 380, totalDownSeconds = 720, lastChecked = Some (Iso 1100000),
      downtimeIncidents = Some ten_incidents, totalOutages = Some 12,
      latency = None, error = None, portTest = None\<rparr>"

text \<open>
  Four checks at 0, 100, 200 and 600 ms that observe online, offline, online, online.
\<close>

definition four_checks :: "(int \<times> int \<times> bool) list" where
  "four_checks = [(1, 0, True), (2, 100, False), (3, 200, True), (4, 600, True)]"

text \<open>A ledger whose two totals are doubles and not negative.\<close>

definition settled :: "ledger \<Rightarrow> bool" where
  "settled l =
     (0 \<le> totalUpSeconds l \<and> double_round (totalUpSeconds l) = totalUpSeconds l \<and>
      0 \<le> totalDownSeconds l \<and> double_round (totalDownSeconds l) = totalDownSeconds l)"

section \<open>Properties\<close>

subsection \<open>The engine, field by field\<close>

lemma num_or0_id: "num_or0 x = x"
  by (simp add: num_or0_def)

lemma outages_or0_simps: "outages_or0 None = 0" "outages_or0 (Some n) = n"
  by (simp_all add: outages_or0_def)

lemma incidents_or_empty_simps:
  "incidents_or_empty None = []" "incidents_or_empty (Some xs) = xs"
  by (simp_all add: incidents_or_empty_def)

lemma deltaSeconds_nonneg: "0 \<le> deltaSeconds prevStatus now"
  by (simp add: deltaSeconds_def split: option.split)

lemma deltaSeconds_cases:
  "deltaSeconds prevStatus now =
     (case lastChecked prevStatus of
        Some (Iso t) \<Rightarrow> max 0 (of_int (now - t) / 1000)
      | _ \<Rightarrow> 0)"
  by (simp add: deltaSeconds_def getTime_def split: option.split datestr.split)

lemma deltaSeconds_not_later:
  "lastChecked l = Some (Iso t) \<Longrightarrow> now \<le> t \<Longrightarrow> deltaSeconds l now = 0"
  by (simp add: deltaSeconds_def getTime_def max_def)

lemma recovery_outage_start:
  "recovery prev now isOnline =
     (lastStatus prev = ''offline'' \<and> isOnline \<and>
      lastStatusChange prev = Some (Iso (outage_start prev)) \<and> outage_start prev < now)"
  by (auto simp add: recovery_def outage_start_def split: option.split datestr.split)

lemma recovery_needs_offline:
  "recovery l now isOnline \<Longrightarrow> lastStatus l = ''offline'' \<and> isOnline"
  by (simp add: recovery_def)

lemma lastStatus_computeDurations:
  "lastStatus (computeDurations clock prevStatus now isOnline) =
     (if isOnline then ''online'' else ''offline'')"
  by (simp add: computeDurations_def Let_def split: option.split)

lemma lastChecked_computeDurations:
  "lastChecked (computeDurations clock prevStatus now isOnline) = Some (Iso now)"
  by (simp add: computeDurations_def Let_def toISOString_def split: option.split)

lemma downtimeIncidents_computeDurations:
  "downtimeIncidents (computeDurations clock prev now isOnline) =
     Some (if recovery prev now isOnline
           then outage_incident clock (outage_start prev) now
                # take 9 (incidents_or_empty (downtimeIncidents prev))
           else incidents_or_empty (downtimeIncidents prev))"
  by (auto simp add: computeDurations_def Let_def toISOString_def recovery_def outage_start_def
      outage_incident_def downtimeDuration_def getTime_def incidents_or_empty_simps max_def
      split: option.split datestr.split)

lemma totalOutages_computeDurations:
  "totalOutages (computeDurations clock prev now isOnline) =
     Some (if recovery prev now isOnline
           then outages_or0 (totalOutages prev) + 1
           else outages_or0 (totalOutages prev))"
  by (auto simp add: computeDurations_def Let_def toISOString_def recovery_def outage_start_def
      downtimeDuration_def getTime_def outages_or0_simps max_def
      split: option.split datestr.split)

text \<open>Every field of the ledger that \<open>computeDurations\<close> returns.\<close>

lemma computeDurations_fields:
  "computeDurations clock prev now isOnline =
     \<lparr>lastOnline = (if isOnline then Some (Iso now) else lastOnline prev),
      lastStatus = (if isOnline then ''online'' else ''offline''),
      lastStatusChange =
        (if (if isOnline then ''online'' else ''offline'') \<noteq> lastStatus prev
         then Some (Iso now) else lastStatusChange prev),
      currentStreakSeconds =
        (if (if isOnline then ''online'' else ''offline'') \<noteq> lastStatus prev
         then 0 else currentStreakSeconds prev + deltaSeconds prev now),
      totalUpSeconds =
        (if lastStatus prev = ''online''
         then totalUpSeconds prev + deltaSeconds prev now else totalUpSeconds prev),
      totalDownSeconds =
        (if lastStatus prev = ''offline''
         then totalDownSeconds prev + deltaSeconds prev now else totalDownSeconds prev),
      lastChecked = Some (Iso now),
      downtimeIncidents =
        Some (if recovery prev now isOnline
              then outage_incident clock (outage_start prev) now
                   # take 9 (incidents_or_empty (downtimeIncidents prev))
              else incidents_or_empty (downtimeIncidents prev)),
      totalOutages =
        Some (if recovery prev now isOnline
              then outages_or0 (totalOutages prev) + 1
              else outages_or0 (totalOutages prev)),
      latency = latency prev, error = error prev, portTest = portTest prev\<rparr>"
  apply (rule ledger.equality)
  apply (simp_all add: downtimeIncidents_computeDurations totalOutages_computeDurations
                       lastChecked_computeDurations)
  apply (simp_all add: computeDurations_def Let_def toISOString_def num_or0_id
                  split: option.split)
  done

lemma computeDurations_twice:
  "computeDurations clock' (computeDurations clock prev now isOnline) now isOnline =
     computeDurations clock prev now isOnline"
proof -
  let ?l = "computeDurations clock prev now isOnline"
  have d: "deltaSeconds ?l now = 0"
    by (rule deltaSeconds_not_later [of _ now]) (simp_all add: lastChecked_computeDurations)
  have s: "lastStatus ?l = (if isOnline then ''online'' else ''offline'')"
    by (rule lastStatus_computeDurations)
  have r: "\<not> recovery ?l now isOnline"
    using recovery_needs_offline [of ?l now isOnline] s by auto
  have "computeDurations clock' ?l now isOnline = ?l"
    apply (subst computeDurations_fields [of clock' ?l])
    apply (simp only: d s r if_False)
    apply (rule ledger.equality)
    apply (simp_all add: lastChecked_computeDurations)
    apply (simp_all add: computeDurations_fields incidents_or_empty_simps outages_or0_simps)
    done
  then show ?thesis .
qed

subsection \<open>The callers and the older engine\<close>

lemma computeDurations_latency_update:
  "computeDurations c (l\<lparr>latency := x\<rparr>) now isOnline =
     (computeDurations c l now isOnline)\<lparr>latency := x\<rparr>"
  by (simp add: computeDurations_fields deltaSeconds_def recovery_def outage_start_def)

lemma computeDurations_portTest_update:
  "computeDurations c (l\<lparr>portTest := x\<rparr>) now isOnline =
     (computeDurations c l now isOnline)\<lparr>portTest := x\<rparr>"
  by (simp add: computeDurations_fields deltaSeconds_def recovery_def outage_start_def)

lemma main_twice: "main clock' (main clock prev now obs) now obs = main clock prev now obs"
  by (cases "obs_latency obs")
     (simp_all add: main_def Let_def computeDurations_latency_update
                    computeDurations_portTest_update computeDurations_twice)

lemma computeDurations_status_js_fields:
  "computeDurations_status_js prev now isOnline =
     prev\<lparr>lastOnline := (if isOnline then Some (Iso now) else lastOnline prev),
          lastStatus := (if isOnline then ''online'' else ''offline''),
          lastStatusChange :=
            (if (if isOnline then ''online'' else ''offline'') \<noteq> lastStatus prev
             then Some (Iso now) else lastStatusChange prev),
          currentStreakSeconds :=
            (if (if isOnline then ''online'' else ''offline'') \<noteq> lastStatus prev
             then 0 else currentStreakSeconds prev + deltaSeconds prev now),
          totalUpSeconds :=
            (if lastStatus prev = ''online''
             then totalUpSeconds prev + deltaSeconds prev now else totalUpSeconds prev),
          totalDownSeconds :=
            (if lastStatus prev = ''offline''
             then totalDownSeconds prev + deltaSeconds prev now else totalDownSeconds prev),
          lastChecked := Some (Iso now)\<rparr>"
  by (rule ledger.equality)
     (simp_all add: computeDurations_status_js_def Let_def toISOString_def num_or0_id)

lemma computeDurations_status_js_twice:
  "computeDurations_status_js (computeDurations_status_js prev now isOnline) now isOnline =
     computeDurations_status_js prev now isOnline"
  by (rule ledger.equality)
     (simp_all add: computeDurations_status_js_fields deltaSeconds_def getTime_def)

lemma computeDurations_status_js_latency_update:
  "computeDurations_status_js (l\<lparr>latency := x\<rparr>) now isOnline =
     (computeDurations_status_js l now isOnline)\<lparr>latency := x\<rparr>"
  by (simp add: computeDurations_status_js_fields deltaSeconds_def)

lemma computeDurations_status_js_error_update:
  "computeDurations_status_js (l\<lparr>error := x\<rparr>) now isOnline =
     (computeDurations_status_js l now isOnline)\<lparr>error := x\<rparr>"
  by (simp add: computeDurations_status_js_fields deltaSeconds_def)

lemma checkServerStatus_twice:
  "checkServerStatus (checkServerStatus prev now outcome) now outcome =
     checkServerStatus prev now outcome"
  by (cases outcome)
     (simp_all add: checkServerStatus_def Let_def computeDurations_status_js_latency_update
                    computeDurations_status_js_error_update computeDurations_status_js_twice)

lemma error_checkServerStatus_Resolved:
  "error (checkServerStatus prev now (Resolved ms)) = error prev"
  by (simp add: checkServerStatus_def computeDurations_status_js_fields)

lemma latency_main:
  "latency (main clock prev now obs) =
     (case obs_latency obs of None \<Rightarrow> latency prev | Some l \<Rightarrow> Some l)"
  by (simp add: main_def Let_def computeDurations_fields split: option.split)

lemma error_main: "error (main clock prev now obs) = error prev"
  by (simp add: main_def Let_def computeDurations_fields split: option.split)

subsection \<open>Runs of checks\<close>

lemma total_computeDurations:
  "totalUpSeconds (computeDurations clock l now isOnline)
   + totalDownSeconds (computeDurations clock l now isOnline) =
   totalUpSeconds l + totalDownSeconds l
   + (if lastStatus l = ''online'' \<or> lastStatus l = ''offline''
      then deltaSeconds l now else 0)"
  by (simp add: computeDurations_fields)

lemma total_run_known:
  "lastStatus l = ''online'' \<or> lastStatus l = ''offline'' \<Longrightarrow>
   lastChecked l = Some (Iso t) \<Longrightarrow>
   totalUpSeconds (run l cs) + totalDownSeconds (run l cs) =
     totalUpSeconds l + totalDownSeconds l + inter_check_deltas (t # times_of cs)"
proof (induction cs arbitrary: l t)
  case Nil
  then show ?case by (simp add: times_of_def)
next
  case (Cons c cs)
  obtain clock now isOnline where c: "c = (clock, now, isOnline)"
    by (cases c) auto
  let ?l' = "computeDurations clock l now isOnline"
  have s: "lastStatus ?l' = ''online'' \<or> lastStatus ?l' = ''offline''"
    by (simp add: lastStatus_computeDurations)
  have k: "lastChecked ?l' = Some (Iso now)"
    by (rule lastChecked_computeDurations)
  have d: "deltaSeconds l now = max 0 (of_int (now - t) / 1000)"
    using Cons.prems(2) by (simp add: deltaSeconds_cases)
  have "totalUpSeconds (run ?l' cs) + totalDownSeconds (run ?l' cs) =
          totalUpSeconds ?l' + totalDownSeconds ?l' + inter_check_deltas (now # times_of cs)"
    by (rule Cons.IH [OF s k])
  also have "totalUpSeconds ?l' + totalDownSeconds ?l' =
          totalUpSeconds l + totalDownSeconds l + max 0 (of_int (now - t) / 1000)"
    using Cons.prems(1) d by (simp only: total_computeDurations if_True)
  finally show ?case
    by (simp add: c times_of_def)
qed

lemma total_run_default:
  "totalUpSeconds (run defaultStructure cs) + totalDownSeconds (run defaultStructure cs) =
     inter_check_deltas (times_of cs)"
proof (cases cs)
  case Nil
  then show ?thesis by (simp add: times_of_def defaultStructure_def)
next
  case (Cons c cs')
  obtain clock now isOnline where c: "c = (clock, now, isOnline)"
    by (cases c) auto
  let ?l' = "computeDurations clock defaultStructure now isOnline"
  have s: "lastStatus ?l' = ''online'' \<or> lastStatus ?l' = ''offline''"
    by (simp add: lastStatus_computeDurations)
  have k: "lastChecked ?l' = Some (Iso now)"
    by (rule lastChecked_computeDurations)
  have z: "totalUpSeconds ?l' + totalDownSeconds ?l' = 0"
    by (simp add: total_computeDurations defaultStructure_def)
  have "totalUpSeconds (run ?l' cs') + totalDownSeconds (run ?l' cs') =
          totalUpSeconds ?l' + totalDownSeconds ?l' + inter_check_deltas (now # times_of cs')"
    by (rule total_run_known [OF s k])
  with z show ?thesis
    by (simp add: Cons c times_of_def)
qed

lemma run_append: "run l (cs @ cs') = run (run l cs) cs'"
  by (induction l cs rule: run.induct) simp_all

lemma total_run_mono:
  "totalUpSeconds l + totalDownSeconds l \<le>
     totalUpSeconds (run l cs) + totalDownSeconds (run l cs)"
proof (induction l cs rule: run.induct)
  case (1 l)
  then show ?case by simp
next
  case (2 l clock now isOnline cs)
  have "totalUpSeconds l + totalDownSeconds l \<le>
          totalUpSeconds (computeDurations clock l now isOnline)
          + totalDownSeconds (computeDurations clock l now isOnline)"
    using deltaSeconds_nonneg [of l now] by (simp add: total_computeDurations)
  with "2.IH" show ?case by simp
qed

text \<open>Every ledger reached from the default one keeps the two bounds on its incident list.\<close>

lemma run_keeps_bounds:
  "length (incidents_or_empty (downtimeIncidents l)) \<le> 10 \<Longrightarrow>
   int (length (incidents_or_empty (downtimeIncidents l))) \<le> outages_or0 (totalOutages l) \<Longrightarrow>
   length (incidents_or_empty (downtimeIncidents (run l cs))) \<le> 10
   \<and> int (length (incidents_or_empty (downtimeIncidents (run l cs))))
       \<le> outages_or0 (totalOutages (run l cs))"
proof (induction l cs rule: run.induct)
  case (1 l)
  then show ?case by simp
next
  case (2 l clock now isOnline cs)
  let ?l' = "computeDurations clock l now isOnline"
  have a: "length (incidents_or_empty (downtimeIncidents ?l')) \<le> 10"
    using "2.prems"(1)
    by (simp add: downtimeIncidents_computeDurations incidents_or_empty_simps)
  have b: "int (length (incidents_or_empty (downtimeIncidents ?l')))
             \<le> outages_or0 (totalOutages ?l')"
    using "2.prems"(2)
    by (auto simp add: downtimeIncidents_computeDurations totalOutages_computeDurations
                       incidents_or_empty_simps outages_or0_simps)
  from "2.IH" [OF a b] show ?case by simp
qed

lemma run_default_bounds:
  "length (incidents_or_empty (downtimeIncidents (run defaultStructure cs))) \<le> 10
   \<and> int (length (incidents_or_empty (downtimeIncidents (run defaultStructure cs))))
       \<le> outages_or0 (totalOutages (run defaultStructure cs))"
  by (rule run_keeps_bounds)
     (simp_all add: defaultStructure_def incidents_or_empty_simps outages_or0_simps)

text \<open>The four checks of the specification's scenario.\<close>

lemma scenario_checks_1_to_3:
  "run defaultStructure [(1, 0, True), (2, 60000, True), (3, 120000, False)] =
     offline_since_120"
  by (simp add: computeDurations_fields defaultStructure_def offline_since_120_def
                deltaSeconds_def getTime_def recovery_def
                incidents_or_empty_simps outages_or0_simps)

lemma scenario_check_4:
  "computeDurations 4 offline_since_120 180000 True =
     \<lparr>lastOnline = Some (Iso 180000), lastStatus = ''online'',
      lastStatusChange = Some (Iso 180000), currentStreakSeconds = 0,
      totalUpSeconds = 120, totalDownSeconds = 60, lastChecked = Some (Iso 180000),
      downtimeIncidents =
        Some [\<lparr>startTime = Iso 120000, endTime = Iso 180000, duration = 60,
               incident_id = 4\<rparr>],
      totalOutages = Some 1, latency = None, error = None, portTest = None\<rparr>"
  by (simp add: computeDurations_fields offline_since_120_def
                deltaSeconds_def getTime_def recovery_def outage_start_def outage_incident_def
                incidents_or_empty_simps outages_or0_simps)

subsection \<open>Rounding to a double\<close>

lemma ties_even_of_int: "ties_even (of_int k) = k"
  by (simp add: ties_even_def)

lemma ties_even_mono: "a \<le> b \<Longrightarrow> ties_even a \<le> ties_even b"
proof -
  assume ab: "a \<le> b"
  then have f: "\<lfloor>a\<rfloor> \<le> \<lfloor>b\<rfloor>" by (rule floor_mono)
  show ?thesis
  proof (cases "\<lfloor>a\<rfloor> = \<lfloor>b\<rfloor>")
    case True
    with ab show ?thesis
      by (auto simp add: ties_even_def Let_def)
  next
    case False
    with f have "\<lfloor>a\<rfloor> + 1 \<le> \<lfloor>b\<rfloor>" by simp
    moreover have "ties_even a \<le> \<lfloor>a\<rfloor> + 1"
      by (simp add: ties_even_def Let_def)
    moreover have "\<lfloor>b\<rfloor> \<le> ties_even b"
      by (simp add: ties_even_def Let_def)
    ultimately show ?thesis by linarith
  qed
qed

lemma ties_even_ge: "of_int k \<le> a \<Longrightarrow> k \<le> ties_even a"
  using ties_even_mono [of "of_int k" a] by (simp add: ties_even_of_int)

lemma ties_even_le: "a \<le> of_int k \<Longrightarrow> ties_even a \<le> k"
  using ties_even_mono [of a "of_int k"] by (simp add: ties_even_of_int)

lemma binade_bounds:
  assumes "0 < x"
  shows "2 powi binade x \<le> x" and "x < 2 powi (binade x + 1)"
proof -
  obtain p q where pq: "quotient_of x = (p, q)" by (cases "quotient_of x")
  then have q: "0 < q" by (rule quotient_of_denom_pos)
  from pq have x: "x = of_int p / of_int q" by (rule quotient_of_div)
  with assms q have p: "0 < p" by (simp add: zero_less_divide_iff)
  let ?k = "bitlen p - bitlen q"
  have bp: "2 ^ nat (bitlen p - 1) \<le> p" "p < 2 ^ nat (bitlen p)"
    using bitlen_bounds [OF p] by simp_all
  have bq: "2 ^ nat (bitlen q - 1) \<le> q" "q < 2 ^ nat (bitlen q)"
    using bitlen_bounds [OF q] by simp_all
  have p1: "1 \<le> bitlen p" using p by (simp add: bitlen_alt_def)
  have q1: "1 \<le> bitlen q" using q by (simp add: bitlen_alt_def)
  have P: "(2::rat) powi (bitlen p - 1) \<le> of_int p" "of_int p < (2::rat) powi bitlen p"
  proof -
    have "(of_int (2 ^ nat (bitlen p - 1)) :: rat) \<le> of_int p"
      using bp(1) by (simp only: of_int_le_iff)
    then show "(2::rat) powi (bitlen p - 1) \<le> of_int p"
      using p1 by (simp add: power_int_def)
    have "(of_int p :: rat) < of_int (2 ^ nat (bitlen p))"
      using bp(2) by (simp only: of_int_less_iff)
    then show "of_int p < (2::rat) powi bitlen p"
      using p1 by (simp add: power_int_def)
  qed
  have Q: "(2::rat) powi (bitlen q - 1) \<le> of_int q" "of_int q < (2::rat) powi bitlen q"
  proof -
    have "(of_int (2 ^ nat (bitlen q - 1)) :: rat) \<le> of_int q"
      using bq(1) by (simp only: of_int_le_iff)
    then show "(2::rat) powi (bitlen q - 1) \<le> of_int q"
      using q1 by (simp add: power_int_def)
    have "(of_int q :: rat) < of_int (2 ^ nat (bitlen q))"
      using bq(2) by (simp only: of_int_less_iff)
    then show "of_int q < (2::rat) powi bitlen q"
      using q1 by (simp add: power_int_def)
  qed
  have qpos: "(0::rat) < of_int q" using q by simp
  have low: "(2::rat) powi (?k - 1) \<le> x"
  proof -
    have "(2::rat) powi (?k - 1) * of_int q \<le> 2 powi (?k - 1) * 2 powi bitlen q"
      using Q(2) by (simp add: mult_left_mono)
    also have "\<dots> = 2 powi (bitlen p - 1)"
      by (simp add: power_int_add [symmetric])
    also have "\<dots> \<le> of_int p" by (rule P(1))
    finally show ?thesis using qpos by (simp add: x pos_le_divide_eq)
  qed
  have up: "x < (2::rat) powi (?k + 1)"
  proof -
    have "of_int p < (2::rat) powi bitlen p" by (rule P(2))
    also have "\<dots> = 2 powi (?k + 1) * 2 powi (bitlen q - 1)"
      by (simp add: power_int_add [symmetric])
    also have "\<dots> \<le> 2 powi (?k + 1) * of_int q"
      using Q(1) by (simp add: mult_left_mono)
    finally show ?thesis using qpos by (simp add: x pos_divide_less_eq)
  qed
  have b: "binade x = (if 2 powi ?k \<le> x then ?k else ?k - 1)"
    by (simp add: binade_def pq Let_def)
  show "2 powi binade x \<le> x"
    using low by (simp add: b)
  show "x < 2 powi (binade x + 1)"
    using up by (auto simp add: b not_le)
qed

lemma two_powi_less_imp: "(2::rat) powi a < 2 powi b \<Longrightarrow> a < b"
proof (rule ccontr)
  assume l: "(2::rat) powi a < 2 powi b" and "\<not> a < b"
  then have "b \<le> a" by simp
  then have "(2::rat) powi b \<le> 2 powi a" by (rule power_int_increasing) simp
  with l show False by simp
qed

lemma binade_unique:
  assumes "0 < x" and "2 powi k \<le> x" and "x < 2 powi (k + 1)"
  shows "binade x = k"
proof -
  have "(2::rat) powi k < 2 powi (binade x + 1)"
    using assms(2) binade_bounds(2) [OF assms(1)] by (rule le_less_trans)
  then have a: "k < binade x + 1"
    by (rule two_powi_less_imp)
  have "(2::rat) powi binade x < 2 powi (k + 1)"
    using binade_bounds(1) [OF assms(1)] assms(3) by (rule le_less_trans)
  then have b: "binade x < k + 1"
    by (rule two_powi_less_imp)
  from a b show ?thesis by simp
qed


lemma binade_mono: "0 < x \<Longrightarrow> x \<le> y \<Longrightarrow> binade x \<le> binade y"
proof -
  assume x: "0 < x" and xy: "x \<le> y"
  then have y: "0 < y" by simp
  have "(2::rat) powi binade x \<le> x" by (rule binade_bounds(1) [OF x])
  also note xy
  also have "y < 2 powi (binade y + 1)" by (rule binade_bounds(2) [OF y])
  finally have "binade x < binade y + 1" by (rule two_powi_less_imp)
  then show ?thesis by simp
qed

lemma two_powi_add: "(2::rat) powi a * 2 powi b = 2 powi (a + b)"
  by (simp add: power_int_add)

lemma scale52: "of_int (2 ^ 52) * (2::rat) powi (e - 52) = 2 powi e"
proof -
  have "(of_int (2 ^ 52) :: rat) = 2 powi 52" by simp
  then have "of_int (2 ^ 52) * (2::rat) powi (e - 52) = 2 powi 52 * 2 powi (e - 52)"
    by (simp only:)
  also have "\<dots> = 2 powi (52 + (e - 52))" by (rule two_powi_add)
  also have "\<dots> = 2 powi e" by simp
  finally show ?thesis .
qed

lemma scale53: "of_int (2 ^ 53) * (2::rat) powi (e - 52) = 2 powi (e + 1)"
proof -
  have "(of_int (2 ^ 53) :: rat) = 2 powi 53" by simp
  then have "of_int (2 ^ 53) * (2::rat) powi (e - 52) = 2 powi 53 * 2 powi (e - 52)"
    by (simp only:)
  also have "\<dots> = 2 powi (53 + (e - 52))" by (rule two_powi_add)
  also have "53 + (e - 52) = e + 1" by simp
  finally show ?thesis .
qed

lemma double_pos_bounds:
  assumes "0 < x"
  shows "2 powi binade x \<le> double_pos x" and "double_pos x \<le> 2 powi (binade x + 1)"
proof -
  let ?u = "(2::rat) powi (binade x - 52)"
  have u: "0 < ?u" by simp
  have "of_int (2 ^ 52) * ?u \<le> x"
    using binade_bounds(1) [OF assms] by (simp only: scale52)
  then have lo: "of_int (2 ^ 52) \<le> x / ?u"
    using u by (simp only: pos_le_divide_eq)
  have "x \<le> of_int (2 ^ 53) * ?u"
    using binade_bounds(2) [OF assms] by (simp only: scale53 less_imp_le)
  then have hi: "x / ?u \<le> of_int (2 ^ 53)"
    using u by (simp only: pos_divide_le_eq)
  have "(of_int (2 ^ 52) :: rat) * ?u \<le> of_int (ties_even (x / ?u)) * ?u"
    using ties_even_ge [OF lo] u by (simp only: mult_right_mono of_int_le_iff less_imp_le)
  then show "2 powi binade x \<le> double_pos x"
    by (simp only: double_pos_def scale52)
  have "of_int (ties_even (x / ?u)) * ?u \<le> (of_int (2 ^ 53) :: rat) * ?u"
    using ties_even_le [OF hi] u by (simp only: mult_right_mono of_int_le_iff less_imp_le)
  then show "double_pos x \<le> 2 powi (binade x + 1)"
    by (simp only: double_pos_def scale53)
qed

lemma double_pos_mono:
  assumes "0 < x" and "x \<le> y"
  shows "double_pos x \<le> double_pos y"
proof (cases "binade x = binade y")
  case True
  let ?u = "(2::rat) powi (binade y - 52)"
  have u: "0 < ?u" by simp
  from assms(2) u have "x / ?u \<le> y / ?u" by (simp add: divide_right_mono)
  then have "ties_even (x / ?u) \<le> ties_even (y / ?u)" by (rule ties_even_mono)
  then have "(of_int (ties_even (x / ?u)) :: rat) * ?u \<le> of_int (ties_even (y / ?u)) * ?u"
    using u by (simp only: mult_right_mono of_int_le_iff less_imp_le)
  then show ?thesis by (simp add: double_pos_def True)
next
  case False
  from assms have y: "0 < y" by simp
  from False binade_mono [OF assms] have "binade x + 1 \<le> binade y" by simp
  then have "(2::rat) powi (binade x + 1) \<le> 2 powi binade y"
    by (rule power_int_increasing) simp
  with double_pos_bounds(2) [OF assms(1)] double_pos_bounds(1) [OF y]
  show ?thesis by linarith
qed

lemma double_pos_pos: "0 < x \<Longrightarrow> 0 < double_pos x"
proof -
  assume x: "0 < x"
  have "(0::rat) < 2 powi binade x" by simp
  with double_pos_bounds(1) [OF x] show ?thesis by linarith
qed

lemma double_round_nonneg: "0 \<le> x \<Longrightarrow> 0 \<le> double_round x"
  using double_pos_pos [of x] by (auto simp add: double_round_def)

lemma double_round_mono_nonneg:
  assumes "0 \<le> x" and "x \<le> y"
  shows "double_round x \<le> double_round y"
proof (cases "x = 0")
  case True
  then have "double_round x = 0" by (simp add: double_round_def)
  moreover from assms have "0 \<le> double_round y" by (simp add: double_round_nonneg)
  ultimately show ?thesis by simp
next
  case False
  with assms have x: "0 < x" by simp
  with assms have y: "0 < y" by simp
  from x y double_pos_mono [OF x assms(2)] show ?thesis
    by (simp add: double_round_def)
qed

lemma double_pos_idem:
  assumes "0 < x"
  shows "double_pos (double_pos x) = double_pos x"
proof -
  let ?e = "binade x"
  let ?u = "(2::rat) powi (?e - 52)"
  let ?m = "ties_even (x / ?u)"
  let ?y = "double_pos x"
  have y: "?y = of_int ?m * ?u" by (simp add: double_pos_def)
  have ypos: "0 < ?y" by (rule double_pos_pos [OF assms])
  show ?thesis
  proof (cases "?y < 2 powi (?e + 1)")
    case True
    have "binade ?y = ?e"
      by (rule binade_unique [OF ypos double_pos_bounds(1) [OF assms] True])
    then have "double_pos ?y = of_int (ties_even (?y / ?u)) * ?u"
      by (simp add: double_pos_def)
    also have "?y / ?u = of_int ?m" by (simp add: y)
    finally show ?thesis by (simp add: ties_even_of_int y)
  next
    case False
    with double_pos_bounds(2) [OF assms] have eq: "?y = 2 powi (?e + 1)" by simp
    have lt: "(2::rat) powi (?e + 1) < 2 powi (?e + 1 + 1)"
      by (rule power_int_strict_increasing) simp_all
    have le: "(2::rat) powi (?e + 1) \<le> ?y" by (simp only: eq order_refl)
    have lt': "?y < 2 powi (?e + 1 + 1)" using lt by (simp only: eq)
    have b: "binade ?y = ?e + 1"
      by (rule binade_unique [OF ypos le lt'])
    have "?y / 2 powi (?e + 1 - 52) =
            (of_int (2 ^ 52) * 2 powi (?e + 1 - 52)) / 2 powi (?e + 1 - 52)"
      by (simp only: eq scale52)
    also have "\<dots> = of_int (2 ^ 52)" by simp
    finally have q: "?y / 2 powi (?e + 1 - 52) = of_int (2 ^ 52)" .
    have "double_pos ?y = of_int (ties_even (?y / 2 powi (?e + 1 - 52))) * 2 powi (?e + 1 - 52)"
      by (simp only: double_pos_def [of ?y] b)
    also have "\<dots> = of_int (2 ^ 52) * 2 powi (?e + 1 - 52)"
      by (simp only: q ties_even_of_int)
    also have "\<dots> = 2 powi (?e + 1)" by (rule scale52)
    finally show ?thesis by (simp only: eq)
  qed
qed

lemma double_round_idem_nonneg: "0 \<le> x \<Longrightarrow> double_round (double_round x) = double_round x"
  using double_pos_pos [of x] double_pos_idem [of x]
  by (auto simp add: double_round_def)

subsection \<open>Runs of checks in the arithmetic of the source\<close>

lemma deltaSeconds_rounded_nonneg: "0 \<le> deltaSeconds_rounded fl l now"
  by (simp add: deltaSeconds_rounded_def split: option.split)

lemma deltaSeconds_rounded_exact: "deltaSeconds_rounded (\<lambda>x. x) l now = deltaSeconds l now"
  by (simp add: deltaSeconds_rounded_def deltaSeconds_def)

lemma downtimeDuration_rounded_exact:
  "downtimeDuration_rounded (\<lambda>x. x) s now = downtimeDuration s now"
  by (simp add: downtimeDuration_rounded_def downtimeDuration_def)

lemma computeDurations_rounded_exact:
  "computeDurations_rounded (\<lambda>x. x) clock l now isOnline = computeDurations clock l now isOnline"
  by (simp only: computeDurations_rounded_def computeDurations_def
                 deltaSeconds_rounded_exact downtimeDuration_rounded_exact)

lemma run_rounded_exact: "run_rounded (\<lambda>x. x) l cs = run l cs"
  by (induction l cs rule: run.induct) (simp_all add: computeDurations_rounded_exact)

lemma lastStatus_computeDurations_rounded:
  "lastStatus (computeDurations_rounded fl clock l now isOnline) =
     (if isOnline then ''online'' else ''offline'')"
  by (simp add: computeDurations_rounded_def Let_def split: option.split)

lemma lastChecked_computeDurations_rounded:
  "lastChecked (computeDurations_rounded fl clock l now isOnline) = Some (Iso now)"
  by (simp add: computeDurations_rounded_def Let_def toISOString_def split: option.split)

lemma totalUpSeconds_computeDurations_rounded:
  "totalUpSeconds (computeDurations_rounded fl clock l now isOnline) =
     (if lastStatus l = ''online''
      then fl (totalUpSeconds l + deltaSeconds_rounded fl l now) else totalUpSeconds l)"
  by (simp add: computeDurations_rounded_def Let_def num_or0_id split: option.split)

lemma totalDownSeconds_computeDurations_rounded:
  "totalDownSeconds (computeDurations_rounded fl clock l now isOnline) =
     (if lastStatus l = ''offline''
      then fl (totalDownSeconds l + deltaSeconds_rounded fl l now) else totalDownSeconds l)"
  by (simp add: computeDurations_rounded_def Let_def num_or0_id split: option.split)

lemma run_rounded_append: "run_rounded fl l (cs @ cs') = run_rounded fl (run_rounded fl l cs) cs'"
  by (induction fl l cs rule: run_rounded.induct) simp_all

lemma totals_run_rounded_known:
  "lastStatus l = (if seen then ''online'' else ''offline'') \<Longrightarrow>
   lastChecked l = Some (Iso t) \<Longrightarrow>
   totalUpSeconds (run_rounded fl l cs) =
     foldl (\<lambda>a d. fl (a + d)) (totalUpSeconds l) (deltas_while fl True ((clock, t, seen) # cs))
   \<and> totalDownSeconds (run_rounded fl l cs) =
     foldl (\<lambda>a d. fl (a + d)) (totalDownSeconds l) (deltas_while fl False ((clock, t, seen) # cs))"
proof (induction cs arbitrary: l seen t clock)
  case Nil
  then show ?case by simp
next
  case (Cons c cs)
  obtain clock' t' seen' where c: "c = (clock', t', seen')"
    by (cases c) auto
  let ?l' = "computeDurations_rounded fl clock' l t' seen'"
  have s: "lastStatus ?l' = (if seen' then ''online'' else ''offline'')"
    by (rule lastStatus_computeDurations_rounded)
  have k: "lastChecked ?l' = Some (Iso t')"
    by (rule lastChecked_computeDurations_rounded)
  have d: "deltaSeconds_rounded fl l t' = max 0 (fl (of_int (t' - t) / 1000))"
    using Cons.prems(2) by (simp add: deltaSeconds_rounded_def getTime_def)
  have u: "totalUpSeconds ?l' =
      (if seen then fl (totalUpSeconds l + max 0 (fl (of_int (t' - t) / 1000)))
       else totalUpSeconds l)"
    using Cons.prems(1) by (simp add: totalUpSeconds_computeDurations_rounded d)
  have w: "totalDownSeconds ?l' =
      (if seen then totalDownSeconds l
       else fl (totalDownSeconds l + max 0 (fl (of_int (t' - t) / 1000))))"
    using Cons.prems(1) by (simp add: totalDownSeconds_computeDurations_rounded d)
  from Cons.IH [OF s k, of clock'] show ?case
    by (simp add: c u w)
qed

lemma totals_run_rounded_default:
  "totalUpSeconds (run_rounded fl defaultStructure cs) =
     rounded_sum fl (deltas_while fl True cs)
   \<and> totalDownSeconds (run_rounded fl defaultStructure cs) =
     rounded_sum fl (deltas_while fl False cs)"
proof (cases cs)
  case Nil
  then show ?thesis by (simp add: rounded_sum_def defaultStructure_def)
next
  case (Cons c cs')
  obtain clock t seen where c: "c = (clock, t, seen)"
    by (cases c) auto
  let ?l' = "computeDurations_rounded fl clock defaultStructure t seen"
  have s: "lastStatus ?l' = (if seen then ''online'' else ''offline'')"
    by (rule lastStatus_computeDurations_rounded)
  have k: "lastChecked ?l' = Some (Iso t)"
    by (rule lastChecked_computeDurations_rounded)
  have z: "totalUpSeconds ?l' = 0" "totalDownSeconds ?l' = 0"
    by (simp_all add: totalUpSeconds_computeDurations_rounded
                      totalDownSeconds_computeDurations_rounded defaultStructure_def)
  from totals_run_rounded_known [OF s k, of fl cs' clock] show ?thesis
    by (simp add: Cons c z rounded_sum_def)
qed

lemma double_step:
  assumes "0 \<le> a" and "double_round a = a" and "0 \<le> d"
  shows "a \<le> double_round (a + d)" and "0 \<le> double_round (a + d)"
    and "double_round (double_round (a + d)) = double_round (a + d)"
proof -
  from assms have s: "0 \<le> a + d" by simp
  have "double_round a \<le> double_round (a + d)"
    by (rule double_round_mono_nonneg) (use assms in simp_all)
  then show "a \<le> double_round (a + d)" by (simp only: assms(2))
  from s show "0 \<le> double_round (a + d)" by (rule double_round_nonneg)
  from s show "double_round (double_round (a + d)) = double_round (a + d)"
    by (rule double_round_idem_nonneg)
qed

lemma settled_step:
  assumes "settled l"
  shows "settled (computeDurations_rounded double_round clock l now isOnline)"
    and "totalUpSeconds l
           \<le> totalUpSeconds (computeDurations_rounded double_round clock l now isOnline)"
    and "totalDownSeconds l
           \<le> totalDownSeconds (computeDurations_rounded double_round clock l now isOnline)"
  using assms deltaSeconds_rounded_nonneg [of double_round l now]
  by (simp_all add: settled_def totalUpSeconds_computeDurations_rounded
                    totalDownSeconds_computeDurations_rounded double_step)

lemma settled_run:
  "settled l \<Longrightarrow>
   settled (run_rounded double_round l cs)
   \<and> totalUpSeconds l \<le> totalUpSeconds (run_rounded double_round l cs)
   \<and> totalDownSeconds l \<le> totalDownSeconds (run_rounded double_round l cs)"
proof (induction cs arbitrary: l)
  case Nil
  then show ?case by simp
next
  case (Cons c cs)
  obtain clock now isOnline where c: "c = (clock, now, isOnline)"
    by (cases c) auto
  let ?l' = "computeDurations_rounded double_round clock l now isOnline"
  from settled_step [OF Cons.prems, of clock now isOnline] Cons.IH [of ?l']
  show ?case by (simp add: c)
qed

lemma settled_default: "settled defaultStructure"
  by (simp add: settled_def defaultStructure_def double_round_def)

lemma deltas_split_known:
  "lastChecked l = Some (Iso t) \<Longrightarrow>
   sum_list (deltas_while fl True ((clock, t, seen) # cs))
   + sum_list (deltas_while fl False ((clock, t, seen) # cs))
   = sum_list (deltas_applied fl l cs)"
proof (induction cs arbitrary: l t seen clock)
  case Nil
  then show ?case by simp
next
  case (Cons c cs)
  obtain clock' t' seen' where c: "c = (clock', t', seen')"
    by (cases c) auto
  let ?l' = "computeDurations_rounded fl clock' l t' seen'"
  have k: "lastChecked ?l' = Some (Iso t')"
    by (rule lastChecked_computeDurations_rounded)
  have d: "deltaSeconds_rounded fl l t' = max 0 (fl (of_int (t' - t) / 1000))"
    using Cons.prems by (simp add: deltaSeconds_rounded_def getTime_def)
  from Cons.IH [OF k, of clock' seen'] show ?case
    by (simp add: c d)
qed

lemma deltas_split_default:
  "sum_list (deltas_while fl True cs) + sum_list (deltas_while fl False cs)
   = sum_list (deltas_applied fl defaultStructure cs)"
proof (cases cs)
  case Nil
  then show ?thesis by simp
next
  case (Cons c cs')
  obtain clock t seen where c: "c = (clock, t, seen)"
    by (cases c) auto
  let ?l' = "computeDurations_rounded fl clock defaultStructure t seen"
  have k: "lastChecked ?l' = Some (Iso t)"
    by (rule lastChecked_computeDurations_rounded)
  have d: "deltaSeconds_rounded fl defaultStructure t = 0"
    by (simp add: deltaSeconds_rounded_def defaultStructure_def)
  from deltas_split_known [OF k, of fl clock seen cs'] show ?thesis
    by (simp add: Cons c d)
qed

lemma four_checks_sums:
  "rounded_sum double_round
     [0, 3602879701896397 / 36028797018963968, 3602879701896397 / 36028797018963968,
      3602879701896397 / 9007199254740992] = 1351079888211149 / 2251799813685248"
  "double_round (21617278211378381 / 36028797018963968)
     = 5404319552844595 / 9007199254740992"
  by code_simp+

lemma four_checks_exact: "inter_check_deltas (times_of four_checks) = 3 / 5"
  by (simp add: four_checks_def times_of_def)

text \<open>
  In doubles the engine takes the branches of the exact one: the two agree in every field
  but the three sums and the rounded durations of the incidents.
\<close>

lemma double_round_pos_iff: "0 < double_round x \<longleftrightarrow> 0 < x"
proof (cases "0 < x")
  case True
  with double_pos_pos [of x] show ?thesis by (simp add: double_round_def)
next
  case False
  show ?thesis
  proof (cases "x = 0")
    case True
    then show ?thesis by (simp add: double_round_def)
  next
    case F: False
    with False have "0 < - x" by simp
    then have "0 < double_pos (- x)" by (rule double_pos_pos)
    with False F show ?thesis by (simp add: double_round_def)
  qed
qed

lemma rounded_positive: "0 < max 0 (double_round (of_int (now - t) / 1000)) \<longleftrightarrow> t < now"
proof -
  have "0 < max 0 (double_round (of_int (now - t) / 1000))
          \<longleftrightarrow> 0 < double_round (of_int (now - t) / 1000)"
    by (simp add: max_def)
  also have "\<dots> \<longleftrightarrow> (0::rat) < of_int (now - t) / 1000"
    by (rule double_round_pos_iff)
  also have "\<dots> \<longleftrightarrow> t < now" by simp
  finally show ?thesis .
qed

lemma downtimeIncidents_rounded:
  "map (\<lambda>i. i\<lparr>duration := 0\<rparr>)
     (incidents_or_empty
        (downtimeIncidents (computeDurations_rounded double_round clock prev now isOnline)))
   = map (\<lambda>i. i\<lparr>duration := 0\<rparr>)
       (incidents_or_empty (downtimeIncidents (computeDurations clock prev now isOnline)))"
  using rounded_positive [of now]
  by (auto simp add: computeDurations_rounded_def downtimeIncidents_computeDurations
      Let_def toISOString_def recovery_def outage_start_def
      outage_incident_def downtimeDuration_rounded_def getTime_def incidents_or_empty_simps
      split: option.split datestr.split)

lemma totalOutages_rounded:
  "totalOutages (computeDurations_rounded double_round clock prev now isOnline)
   = totalOutages (computeDurations clock prev now isOnline)"
  using rounded_positive [of now]
  by (auto simp add: computeDurations_rounded_def totalOutages_computeDurations
      Let_def toISOString_def recovery_def outage_start_def
      downtimeDuration_rounded_def getTime_def outages_or0_simps
      split: option.split datestr.split)

lemma other_fields_rounded:
  "lastOnline (computeDurations_rounded fl clock prev now isOnline)
     = lastOnline (computeDurations clock prev now isOnline)
   \<and> lastStatus (computeDurations_rounded fl clock prev now isOnline)
     = lastStatus (computeDurations clock prev now isOnline)
   \<and> lastStatusChange (computeDurations_rounded fl clock prev now isOnline)
     = lastStatusChange (computeDurations clock prev now isOnline)
   \<and> lastChecked (computeDurations_rounded fl clock prev now isOnline)
     = lastChecked (computeDurations clock prev now isOnline)
   \<and> latency (computeDurations_rounded fl clock prev now isOnline)
     = latency (computeDurations clock prev now isOnline)
   \<and> error (computeDurations_rounded fl clock prev now isOnline)
     = error (computeDurations clock prev now isOnline)
   \<and> portTest (computeDurations_rounded fl clock prev now isOnline)
     = portTest (computeDurations clock prev now isOnline)"
  by (simp add: computeDurations_fields)
     (simp add: computeDurations_rounded_def Let_def toISOString_def split: option.split)

text \<open>The run of the four checks, evaluated.\<close>

lemma four_checks_ledger:
  "run_rounded double_round defaultStructure four_checks =
     \<lparr>lastOnline = Some (Iso 600), lastStatus = ''online'',
      lastStatusChange = Some (Iso 200),
      currentStreakSeconds = 3602879701896397 / 9007199254740992,
      totalUpSeconds = 1 / 2,
      totalDownSeconds = 3602879701896397 / 36028797018963968,
      lastChecked = Some (Iso 600),
      downtimeIncidents =
        Some [\<lparr>startTime = Iso 100, endTime = Iso 200, duration = 0, incident_id = 3\<rparr>],
      totalOutages = Some 1, latency = None, error = None, portTest = None\<rparr>"
  by code_simp

lemma four_checks_deltas:
  "deltas_applied double_round defaultStructure four_checks =
     [0, 3602879701896397 / 36028797018963968, 3602879701896397 / 36028797018963968,
      3602879701896397 / 9007199254740992]"
  by code_simp

subsection \<open>Keeping the incident list in order\<close>

lemma ended_by_later: "ended_by t i \<Longrightarrow> t \<le> t' \<Longrightarrow> ended_by t' i"
  by (auto simp add: ended_by_def split: option.splits)

lemma recent_first_Cons:
  "recent_first (outage_incident clock t now # xs) =
     (list_all (ended_by (now - 1)) xs \<and> recent_first xs)"
  by (auto simp add: recent_first_def ended_after_def ended_by_def outage_incident_def
                     getTime_def list_all_iff split: option.splits datestr.splits)

lemma recent_first_take: "recent_first xs \<Longrightarrow> recent_first (take n xs)"
  by (simp add: recent_first_def sorted_wrt_take)

lemma list_all_take: "list_all P xs \<Longrightarrow> list_all P (take n xs)"
  by (auto simp add: list_all_iff dest: in_set_takeD)

lemma list_all_ended_by_later:
  "list_all (ended_by t) xs \<Longrightarrow> t \<le> t' \<Longrightarrow> list_all (ended_by t') xs"
  by (auto simp add: list_all_iff intro: ended_by_later)

lemma recent_first_computeDurations:
  assumes "recent_first (incidents_or_empty (downtimeIncidents prev))"
    and "closed_by_change prev"
  shows "recent_first (incidents_or_empty
           (downtimeIncidents (computeDurations clock prev now isOnline)))"
proof (cases "recovery prev now isOnline")
  case False
  with assms(1) show ?thesis
    by (simp add: downtimeIncidents_computeDurations incidents_or_empty_simps)
next
  case True
  let ?old = "incidents_or_empty (downtimeIncidents prev)"
  from True have c: "lastStatusChange prev = Some (Iso (outage_start prev))"
    and n: "outage_start prev < now"
    by (simp_all add: recovery_outage_start)
  from assms(2) c have h: "list_all (ended_by (outage_start prev)) ?old"
    by (simp add: closed_by_change_def)
  from n have "outage_start prev \<le> now - 1" by simp
  with h have "list_all (ended_by (now - 1)) ?old"
    by (rule list_all_ended_by_later)
  then have "list_all (ended_by (now - 1)) (take 9 ?old)"
    by (rule list_all_take)
  moreover from assms(1) have "recent_first (take 9 ?old)"
    by (rule recent_first_take)
  ultimately show ?thesis
    using True
    by (simp add: downtimeIncidents_computeDurations incidents_or_empty_simps
                  recent_first_Cons)
qed

lemma checked_sinceD:
  assumes "checked_since l t"
  obtains c where "lastChecked l = Some (Iso c)" and "t \<le> c"
proof (cases "lastChecked l")
  case None
  with assms show ?thesis by (simp add: checked_since_def)
next
  case (Some s)
  with assms that show ?thesis by (cases s) (simp_all add: checked_since_def)
qed

lemma orderly_Iso:
  assumes "orderly l" and "lastStatusChange l = Some (Iso t)"
  shows "list_all (ended_by t) (incidents_or_empty (downtimeIncidents l))"
    and "checked_since l t"
  using assms by (simp_all add: orderly_def)

lemma orderly_closed: "orderly l \<Longrightarrow> closed_by_change l"
proof (cases "lastStatusChange l")
  case None
  then show ?thesis by (simp add: closed_by_change_def)
next
  case (Some s)
  assume o: "orderly l"
  show ?thesis
  proof (cases s)
    case (Iso t)
    with Some orderly_Iso(1) [OF o] show ?thesis by (simp add: closed_by_change_def)
  next
    case NotADate
    with Some show ?thesis by (simp add: closed_by_change_def)
  qed
qed

lemma orderly_recent_first:
  "orderly l \<Longrightarrow> recent_first (incidents_or_empty (downtimeIncidents l))"
  by (simp add: orderly_def)

lemma ended_by_outage_incident: "ended_by now (outage_incident clock t now)"
  by (simp add: ended_by_def outage_incident_def getTime_def)

lemma orderly_computeDurations:
  assumes o: "orderly l"
    and n: "\<And>c. lastChecked l = Some (Iso c) \<Longrightarrow> c \<le> now"
  shows "orderly (computeDurations clock l now isOnline)"
proof -
  let ?l' = "computeDurations clock l now isOnline"
  let ?old = "incidents_or_empty (downtimeIncidents l)"
  have r: "recent_first (incidents_or_empty (downtimeIncidents ?l'))"
    using orderly_recent_first [OF o] orderly_closed [OF o]
    by (rule recent_first_computeDurations)
  have k: "lastChecked ?l' = Some (Iso now)"
    by (rule lastChecked_computeDurations)
  have old_by_now: "list_all (ended_by now) ?old"
  proof (cases "lastStatusChange l")
    case None
    with o show ?thesis by (simp add: orderly_def)
  next
    case (Some s)
    show ?thesis
    proof (cases s)
      case NotADate
      with Some o show ?thesis by (simp add: orderly_def)
    next
      case (Iso t)
      with Some have e: "lastStatusChange l = Some (Iso t)" by simp
      note a = orderly_Iso(1) [OF o e]
      from orderly_Iso(2) [OF o e] obtain c where c: "lastChecked l = Some (Iso c)"
        and tc: "t \<le> c" by (rule checked_sinceD)
      from n [OF c] tc have "t \<le> now" by simp
      with a show ?thesis by (rule list_all_ended_by_later)
    qed
  qed
  show ?thesis
  proof (cases "(if isOnline then ''online'' else ''offline'') \<noteq> lastStatus l")
    case True
    then have c: "lastStatusChange ?l' = Some (Iso now)"
      by (simp add: computeDurations_fields)
    have "list_all (ended_by now) (incidents_or_empty (downtimeIncidents ?l'))"
      using old_by_now
      by (simp add: downtimeIncidents_computeDurations incidents_or_empty_simps
                    ended_by_outage_incident list_all_take)
    with r c k show ?thesis by (simp add: orderly_def checked_since_def)
  next
    case False
    then have c: "lastStatusChange ?l' = lastStatusChange l"
      by (simp add: computeDurations_fields)
    from False have nr: "\<not> recovery l now isOnline"
      by (auto simp add: recovery_def)
    then have i: "incidents_or_empty (downtimeIncidents ?l') = ?old"
      by (simp add: downtimeIncidents_computeDurations incidents_or_empty_simps)
    show ?thesis
    proof (cases "lastStatusChange l")
      case None
      with o r c i show ?thesis by (simp add: orderly_def)
    next
      case (Some s)
      show ?thesis
      proof (cases s)
        case NotADate
        with Some o r c i show ?thesis by (simp add: orderly_def)
      next
        case (Iso t)
        with Some have e: "lastStatusChange l = Some (Iso t)" by simp
        note a = orderly_Iso(1) [OF o e]
        from orderly_Iso(2) [OF o e] obtain c' where c': "lastChecked l = Some (Iso c')"
          and tc: "t \<le> c'" by (rule checked_sinceD)
        from n [OF c'] tc have "t \<le> now" by simp
        with a r c i k e show ?thesis by (simp add: orderly_def checked_since_def)
      qed
    qed
  qed
qed

lemma orderly_run:
  "orderly l \<Longrightarrow> sorted (times_of cs) \<Longrightarrow>
   (\<And>c t. lastChecked l = Some (Iso c) \<Longrightarrow> t \<in> set (times_of cs) \<Longrightarrow> c \<le> t) \<Longrightarrow>
   orderly (run l cs)"
proof (induction cs arbitrary: l)
  case Nil
  then show ?case by simp
next
  case (Cons c cs)
  obtain clock now isOnline where c: "c = (clock, now, isOnline)"
    by (cases c) auto
  let ?l' = "computeDurations clock l now isOnline"
  have o: "orderly ?l'"
    by (rule orderly_computeDurations [OF Cons.prems(1)])
       (rule Cons.prems(3), simp_all add: c times_of_def)
  have s: "sorted (times_of cs)"
    using Cons.prems(2) by (simp add: c times_of_def)
  have b: "c' \<le> t" if "lastChecked ?l' = Some (Iso c')" and "t \<in> set (times_of cs)" for c' t
  proof -
    from that(1) have "c' = now" by (simp add: lastChecked_computeDurations)
    with that(2) Cons.prems(2) show ?thesis by (auto simp add: c times_of_def)
  qed
  from Cons.IH [OF o s b] show ?case by (simp add: c)
qed

lemma orderly_default: "orderly defaultStructure"
  by (simp add: orderly_def defaultStructure_def incidents_or_empty_simps recent_first_def)

lemma run_default_orderly:
  "sorted (times_of cs) \<Longrightarrow>
   recent_first (incidents_or_empty (downtimeIncidents (run defaultStructure cs)))
   \<and> closed_by_change (run defaultStructure cs)"
proof -
  assume "sorted (times_of cs)"
  with orderly_default have "orderly (run defaultStructure cs)"
    by (rule orderly_run) (simp add: defaultStructure_def)
  then show ?thesis by (simp add: orderly_recent_first orderly_closed)
qed

lemma ten_incidents_recent_first: "recent_first ten_incidents"
  by code_simp

lemma ten_incidents_length: "length ten_incidents = 10"
  by (simp add: ten_incidents_def)

lemma full_list_closed: "closed_by_change full_list"
  by code_simp

subsection \<open>Incidents and the wall clock\<close>

lemma duration_outage_incident_nonneg:
  "t \<le> now \<Longrightarrow> 0 \<le> duration (outage_incident clock t now)"
proof -
  assume "t \<le> now"
  then have "(0::rat) \<le> of_int (now - t) / 1000" by simp
  then have "round (0::rat) \<le> round (of_int (now - t) / 1000 :: rat)" by (rule round_mono)
  then show ?thesis by (simp add: outage_incident_def)
qed

lemma newest_id_decides:
  assumes "recovery prev now isOnline"
    and "computeDurations clock prev now isOnline = computeDurations clock' prev now isOnline"
  shows "clock = clock'"
proof -
  from assms(2)
  have "downtimeIncidents (computeDurations clock prev now isOnline)
        = downtimeIncidents (computeDurations clock' prev now isOnline)"
    by (rule arg_cong)
  with assms(1) show ?thesis
    by (simp add: downtimeIncidents_computeDurations outage_incident_def)
qed

lemma computeDurations_other_clock:
  "computeDurations clock' prev now isOnline =
     (if recovery prev now isOnline
      then with_newest_id clock' (computeDurations clock prev now isOnline)
      else computeDurations clock prev now isOnline)"
  by (simp add: computeDurations_fields with_newest_id_def outage_incident_def)

lemma same_result_iff: "(computeDurations clock prev now isOnline = computeDurations clock' prev now isOnline)
     = (clock = clock' \<or> \<not> recovery prev now isOnline)"
proof (cases "recovery prev now isOnline")
  case False
  then have "computeDurations clock' prev now isOnline = computeDurations clock prev now isOnline"
    by (simp only: computeDurations_other_clock [of clock' prev now isOnline clock] if_False)
  with False show ?thesis by simp
next
  case True
  show ?thesis
  proof
    assume "computeDurations clock prev now isOnline = computeDurations clock' prev now isOnline"
    with True have "clock = clock'" by (rule newest_id_decides)
    then show "clock = clock' \<or> \<not> recovery prev now isOnline" ..
  next
    assume "clock = clock' \<or> \<not> recovery prev now isOnline"
    with True have "clock = clock'" by simp
    then show "computeDurations clock prev now isOnline = computeDurations clock' prev now isOnline"
      by simp
  qed
qed

section \<open>The claims\<close>

text \<open>
  C1. \<open>computeDurations\<close> records an incident exactly on a recovery: the ledger was
  offline, the observation is online, and the last status change is a timestamp strictly
  before \<open>now\<close>. The incident then starts at that status change, ends at \<open>now\<close>, lasts
  the rounded number of seconds between the two and is put at the head of the list, and
  the counter of outages grows by one; in every other case the list and the counter keep
  their values (an absent list reads as empty and an absent counter as 0). This holds for
  every \<open>now\<close>, also one that is earlier than the previous check.
\<close>

theorem incident_iff_recovery:
  "recovery prev now isOnline =
     (lastStatus prev = ''offline'' \<and> isOnline \<and>
      lastStatusChange prev = Some (Iso (outage_start prev)) \<and> outage_start prev < now)
   \<and> downtimeIncidents (computeDurations clock prev now isOnline) =
       Some (if recovery prev now isOnline
             then \<lparr>startTime = Iso (outage_start prev), endTime = Iso now,
                   duration = round (of_int (now - outage_start prev) / 1000 :: rat),
                   incident_id = clock\<rparr>
                  # take 9 (incidents_or_empty (downtimeIncidents prev))
             else incidents_or_empty (downtimeIncidents prev))
   \<and> totalOutages (computeDurations clock prev now isOnline) =
       Some (if recovery prev now isOnline
             then outages_or0 (totalOutages prev) + 1
             else outages_or0 (totalOutages prev))
   \<and> (outages_or0 (totalOutages (computeDurations clock prev now isOnline)) =
        outages_or0 (totalOutages prev) + 1) = recovery prev now isOnline"
  using recovery_outage_start [of prev now isOnline]
  by (simp add: downtimeIncidents_computeDurations totalOutages_computeDurations
                outages_or0_simps outage_incident_def)

theorem incident_iff_recovery_witness:
  "recovery offline_since_120 180000 True
   \<and> downtimeIncidents (computeDurations 4 offline_since_120 180000 True) =
       Some [\<lparr>startTime = Iso 120000, endTime = Iso 180000, duration = 60, incident_id = 4\<rparr>]
   \<and> totalOutages (computeDurations 4 offline_since_120 180000 True) = Some 1
   \<and> \<not> recovery offline_since_120 180000 False
   \<and> downtimeIncidents (computeDurations 4 offline_since_120 180000 False) = Some []
   \<and> totalOutages (computeDurations 4 offline_since_120 180000 False) = Some 0"
  using incident_iff_recovery [of offline_since_120 180000 True 4]
        incident_iff_recovery [of offline_since_120 180000 False 4]
  by (simp add: offline_since_120_def outage_start_def outages_or0_simps
                incidents_or_empty_simps)

text \<open>
  C2, as stated, fails in the arithmetic of the source. After the four checks at 0, 100,
  200 and 600 ms the code holds \<open>totalUpSeconds = 0.5\<close> and \<open>totalDownSeconds = 0.1\<close> (the
  double). Their sum is not the sum of the three deltas the checks computed, neither
  added exactly nor added as doubles (\<open>0.6\<close> against \<open>0.6000000000000001\<close>), nor the exact
  \<open>3 / 5\<close> of a second between the first and the last check.
\<close>

theorem rounding_breaks_exact_sum_counterexample:
  "totalUpSeconds (run_rounded double_round defaultStructure four_checks)
     + totalDownSeconds (run_rounded double_round defaultStructure four_checks)
     \<noteq> sum_list (deltas_applied double_round defaultStructure four_checks)
   \<and> double_round
       (totalUpSeconds (run_rounded double_round defaultStructure four_checks)
        + totalDownSeconds (run_rounded double_round defaultStructure four_checks))
     \<noteq> rounded_sum double_round (deltas_applied double_round defaultStructure four_checks)
   \<and> totalUpSeconds (run_rounded double_round defaultStructure four_checks)
     + totalDownSeconds (run_rounded double_round defaultStructure four_checks)
     \<noteq> inter_check_deltas (times_of four_checks)"
  by (simp add: four_checks_ledger four_checks_deltas four_checks_sums four_checks_exact)

text \<open>
  C2, amended. After any run of checks from the default ledger, in whatever arithmetic
  \<open>fl\<close>, \<open>totalUpSeconds\<close> is the sum of the deltas of the checks made when the check
  before had observed online, and \<open>totalDownSeconds\<close> of those made when it had observed
  offline, added in order with every sum rounded; the two lists together hold each delta
  that a check computed once. In exact arithmetic the run is that of \<open>computeDurations\<close>
  and the two totals add up to the sum of the clamped gaps between the timestamps. In
  the doubles of the source neither total ever decreases along a run, and so neither
  does their sum, added as a double. All this holds for every sequence of timestamps,
  non-decreasing or not.
\<close>

theorem totals_are_rounded_sums:
  "totalUpSeconds (run_rounded fl defaultStructure cs) =
     rounded_sum fl (deltas_while fl True cs)
   \<and> totalDownSeconds (run_rounded fl defaultStructure cs) =
     rounded_sum fl (deltas_while fl False cs)
   \<and> sum_list (deltas_while fl True cs) + sum_list (deltas_while fl False cs) =
     sum_list (deltas_applied fl defaultStructure cs)
   \<and> run_rounded (\<lambda>x. x) defaultStructure cs = run defaultStructure cs
   \<and> totalUpSeconds (run defaultStructure cs) + totalDownSeconds (run defaultStructure cs) =
     inter_check_deltas (times_of cs)
   \<and> totalUpSeconds (run_rounded double_round defaultStructure cs)
     \<le> totalUpSeconds (run_rounded double_round defaultStructure (cs @ cs'))
   \<and> totalDownSeconds (run_rounded double_round defaultStructure cs)
     \<le> totalDownSeconds (run_rounded double_round defaultStructure (cs @ cs'))
   \<and> double_round
       (totalUpSeconds (run_rounded double_round defaultStructure cs)
        + totalDownSeconds (run_rounded double_round defaultStructure cs))
     \<le> double_round
         (totalUpSeconds (run_rounded double_round defaultStructure (cs @ cs'))
          + totalDownSeconds (run_rounded double_round defaultStructure (cs @ cs')))"
proof -
  let ?r = "run_rounded double_round defaultStructure cs"
  let ?r' = "run_rounded double_round defaultStructure (cs @ cs')"
  note a = totals_run_rounded_default [of fl cs]
  have s: "settled ?r"
    using settled_run [OF settled_default, of cs] by simp
  have m: "totalUpSeconds ?r \<le> totalUpSeconds ?r'"
          "totalDownSeconds ?r \<le> totalDownSeconds ?r'"
    using settled_run [OF s, of cs'] by (simp_all only: run_rounded_append)
  from s have z: "0 \<le> totalUpSeconds ?r + totalDownSeconds ?r"
    by (simp add: settled_def)
  from m have "totalUpSeconds ?r + totalDownSeconds ?r
                 \<le> totalUpSeconds ?r' + totalDownSeconds ?r'"
    by simp
  with z have d: "double_round (totalUpSeconds ?r + totalDownSeconds ?r)
                 \<le> double_round (totalUpSeconds ?r' + totalDownSeconds ?r')"
    by (rule double_round_mono_nonneg)
  from a [THEN conjunct1] a [THEN conjunct2] deltas_split_default [of fl cs]
       run_rounded_exact [of defaultStructure cs] total_run_default [of cs] m d
  show ?thesis
    by (intro conjI)
qed

theorem totals_are_rounded_sums_witness:
  "rounded_sum double_round (deltas_while double_round True four_checks) = 1 / 2
   \<and> rounded_sum double_round (deltas_while double_round False four_checks)
       = 3602879701896397 / 36028797018963968"
proof -
  note t = totals_are_rounded_sums [of double_round four_checks "[]"]
  from t [THEN conjunct1] t [THEN conjunct2, THEN conjunct1]
  show ?thesis
    by (simp add: four_checks_ledger)
qed

text \<open>
  C3. The claim asks that the saved ledger carries an error only after an offline check
  and a latency only after an online one. The code does not do this. An error stored by
  an offline cycle of \<open>checkServerStatus\<close> is still in the ledger after the next online
  cycle, and a latency stored by an online run of \<open>main\<close> is still in the ledger after
  the next offline run, which stores no error at all.
\<close>

theorem stale_error_and_latency:
  "lastStatus (checkServerStatus getDefaultStatus 0 (Rejected ''AbortError'')) = ''offline''
   \<and> error (checkServerStatus getDefaultStatus 0 (Rejected ''AbortError'')) = Some ''timeout''
   \<and> lastStatus (checkServerStatus
        (checkServerStatus getDefaultStatus 0 (Rejected ''AbortError''))
        60000 (Resolved 42)) = ''online''
   \<and> error (checkServerStatus
        (checkServerStatus getDefaultStatus 0 (Rejected ''AbortError''))
        60000 (Resolved 42)) = Some ''timeout''
   \<and> latency (main 2
        (main 1 defaultStructure 0 \<lparr>online = True, obs_latency = Some 42, obs_error = None\<rparr>)
        60000 \<lparr>online = False, obs_latency = None, obs_error = Some ''timeout''\<rparr>) = Some 42
   \<and> error (main 2
        (main 1 defaultStructure 0 \<lparr>online = True, obs_latency = Some 42, obs_error = None\<rparr>)
        60000 \<lparr>online = False, obs_latency = None, obs_error = Some ''timeout''\<rparr>) = None"
  by (simp add: checkServerStatus_def Let_def computeDurations_status_js_fields
                getDefaultStatus_def latency_main error_main defaultStructure_def)

text \<open>
  C4, as stated, fails twice. The list of the ledger \<open>undercounted\<close> has one incident,
  its counter of outages is 0, and a check that records nothing leaves both as they are.
  And the list of the ledger \<open>stepped_back\<close> has one incident, which ended at 200 s, and a
  counter of 1; the recovery at 50 s puts an incident that ended at 50 s in front of it.
\<close>

theorem unordered_or_undercounted_counterexample:
  "length (incidents_or_empty (downtimeIncidents undercounted)) \<le> 10
   \<and> \<not> int (length (incidents_or_empty
                (downtimeIncidents (computeDurations 2 undercounted 120000 True))))
        \<le> outages_or0 (totalOutages (computeDurations 2 undercounted 120000 True))
   \<and> length (incidents_or_empty (downtimeIncidents stepped_back)) \<le> 10
   \<and> recent_first (incidents_or_empty (downtimeIncidents stepped_back))
   \<and> int (length (incidents_or_empty (downtimeIncidents stepped_back)))
        \<le> outages_or0 (totalOutages stepped_back)
   \<and> \<not> recent_first (incidents_or_empty
                (downtimeIncidents (computeDurations 5 stepped_back 50000 True)))"
proof -
  have s: "stepped_back =
     \<lparr>lastOnline = Some (Iso 200000), lastStatus = ''offline'',
      lastStatusChange = Some (Iso 10000), currentStreakSeconds = 0,
      totalUpSeconds = 100, totalDownSeconds = 100, lastChecked = Some (Iso 10000),
      downtimeIncidents = Some [outage_incident 3 100000 200000],
      totalOutages = Some 1, latency = None, error = None, portTest = None\<rparr>"
    by (simp add: stepped_back_def computeDurations_fields defaultStructure_def
                  deltaSeconds_def getTime_def recovery_def outage_start_def
                  incidents_or_empty_simps outages_or0_simps)
  have a: "length (incidents_or_empty (downtimeIncidents undercounted)) \<le> 10
   \<and> \<not> int (length (incidents_or_empty
                (downtimeIncidents (computeDurations 2 undercounted 120000 True))))
        \<le> outages_or0 (totalOutages (computeDurations 2 undercounted 120000 True))"
    by (simp add: downtimeIncidents_computeDurations totalOutages_computeDurations
                  undercounted_def defaultStructure_def recovery_def
                  incidents_or_empty_simps outages_or0_simps)
  have b: "length (incidents_or_empty (downtimeIncidents stepped_back)) \<le> 10
   \<and> recent_first (incidents_or_empty (downtimeIncidents stepped_back))
   \<and> int (length (incidents_or_empty (downtimeIncidents stepped_back)))
        \<le> outages_or0 (totalOutages stepped_back)"
    by (simp add: s incidents_or_empty_simps outages_or0_simps recent_first_def)
  have r: "recovery stepped_back 50000 True"
    by (simp add: s recovery_def)
  have c: "\<not> recent_first (incidents_or_empty
                (downtimeIncidents (computeDurations 5 stepped_back 50000 True)))"
    by (simp add: downtimeIncidents_computeDurations r incidents_or_empty_simps
                  recent_first_Cons)
       (simp add: s incidents_or_empty_simps ended_by_def outage_incident_def getTime_def)
  from a b c show ?thesis by simp
qed

text \<open>
  C4, amended. If the list of the previous ledger has at most 10 incidents, is ordered
  strictly most recent first, holds only incidents that ended no later than the last
  status change, and is no longer than the counter of outages says, then the list of the
  new ledger has at most 10 incidents, it is the new incident followed by the first 9 of
  the previous list on a recovery and the previous list otherwise, it is ordered strictly
  most recent first, and the new counter of outages is at least its length. Every ledger
  reached from the default one by checks with non-decreasing timestamps satisfies the four
  conditions (\<open>run_default_bounds\<close>, \<open>run_default_orderly\<close>).
\<close>

theorem incidents_bounded:
  assumes "length (incidents_or_empty (downtimeIncidents prev)) \<le> 10"
    and "int (length (incidents_or_empty (downtimeIncidents prev)))
           \<le> outages_or0 (totalOutages prev)"
    and "recent_first (incidents_or_empty (downtimeIncidents prev))"
    and "closed_by_change prev"
  shows "length (incidents_or_empty
           (downtimeIncidents (computeDurations clock prev now isOnline))) \<le> 10
   \<and> downtimeIncidents (computeDurations clock prev now isOnline) =
       Some (if recovery prev now isOnline
             then outage_incident clock (outage_start prev) now
                  # take 9 (incidents_or_empty (downtimeIncidents prev))
             else incidents_or_empty (downtimeIncidents prev))
   \<and> recent_first (incidents_or_empty
           (downtimeIncidents (computeDurations clock prev now isOnline)))
   \<and> int (length (incidents_or_empty
           (downtimeIncidents (computeDurations clock prev now isOnline))))
       \<le> outages_or0 (totalOutages (computeDurations clock prev now isOnline))"
proof -
  have o: "recent_first (incidents_or_empty
           (downtimeIncidents (computeDurations clock prev now isOnline)))"
    using assms(3) assms(4) by (rule recent_first_computeDurations)
  have l: "length (incidents_or_empty
           (downtimeIncidents (computeDurations clock prev now isOnline))) \<le> 10"
    using assms(1)
    by (simp add: downtimeIncidents_computeDurations incidents_or_empty_simps)
  have c: "int (length (incidents_or_empty
           (downtimeIncidents (computeDurations clock prev now isOnline))))
       \<le> outages_or0 (totalOutages (computeDurations clock prev now isOnline))"
    using assms(2)
    by (auto simp add: downtimeIncidents_computeDurations totalOutages_computeDurations
                       incidents_or_empty_simps outages_or0_simps)
  from l o c show ?thesis
    by (simp only: downtimeIncidents_computeDurations simp_thms)
qed

theorem incidents_bounded_witness:
  "length (incidents_or_empty (downtimeIncidents full_list)) \<le> 10
   \<and> int (length (incidents_or_empty (downtimeIncidents full_list)))
       \<le> outages_or0 (totalOutages full_list)
   \<and> recent_first (incidents_or_empty (downtimeIncidents full_list))
   \<and> closed_by_change full_list
   \<and> length (incidents_or_empty
        (downtimeIncidents (computeDurations 11 full_list 1150000 True))) \<le> 10
   \<and> downtimeIncidents (computeDurations 11 full_list 1150000 True) =
       Some (outage_incident 11 1100000 1150000 # take 9 ten_incidents)
   \<and> recent_first (incidents_or_empty
        (downtimeIncidents (computeDurations 11 full_list 1150000 True)))
   \<and> int (length (incidents_or_empty
        (downtimeIncidents (computeDurations 11 full_list 1150000 True))))
       \<le> outages_or0 (totalOutages (computeDurations 11 full_list 1150000 True))"
proof -
  have e: "incidents_or_empty (downtimeIncidents full_list) = ten_incidents"
    by (simp add: full_list_def incidents_or_empty_simps)
  have h1: "length (incidents_or_empty (downtimeIncidents full_list)) \<le> 10"
    by (simp add: e ten_incidents_length)
  have h2: "int (length (incidents_or_empty (downtimeIncidents full_list)))
       \<le> outages_or0 (totalOutages full_list)"
    by (simp add: e ten_incidents_length) (simp add: full_list_def outages_or0_simps)
  have h3: "recent_first (incidents_or_empty (downtimeIncidents full_list))"
    by (simp add: e ten_incidents_recent_first)
  have h4: "closed_by_change full_list"
    by (rule full_list_closed)
  have r: "recovery full_list 1150000 True = True"
    by (simp add: recovery_def full_list_def)
  have o: "outage_start full_list = 1100000"
    by (simp add: outage_start_def full_list_def)
  note t = incidents_bounded [OF h1 h2 h3 h4, of 11 1150000 True, unfolded r o e if_True]
  note t1 = t [THEN conjunct1]
    and t2 = t [THEN conjunct2, THEN conjunct1]
    and t3 = t [THEN conjunct2, THEN conjunct2, THEN conjunct1]
    and t4 = t [THEN conjunct2, THEN conjunct2, THEN conjunct2]
  from h1 h2 h3 h4 t1 t2 t3 t4 show ?thesis by (intro conjI)
qed

text \<open>
  C5, as stated, fails in one direction: the streak can be 0 without a change of status.
  After a first online check at 0 ms the streak is 0; a second online check at the same
  millisecond changes no status and adds a delta of 0, so the streak is 0 again.
\<close>

theorem streak_zero_without_change_counterexample:
  "\<not> (currentStreakSeconds
         (computeDurations 2 (computeDurations 1 defaultStructure 0 True) 0 True) = 0
       \<longleftrightarrow> ''online'' \<noteq> lastStatus (computeDurations 1 defaultStructure 0 True))"
  by (simp add: computeDurations_fields defaultStructure_def deltaSeconds_def getTime_def)

text \<open>
  C5, amended. The streak of the new ledger is 0 when the new status differs from the
  previous one, and otherwise the previous streak plus the delta, which is never negative,
  so that without a change of status the streak does not decrease. \<open>lastStatusChange\<close> is
  \<open>now\<close> when the status changed and keeps its value otherwise, so it differs from the
  previous one only when the status changed.
\<close>

theorem streak_and_status_change:
  "currentStreakSeconds (computeDurations clock prev now isOnline) =
     (if (if isOnline then ''online'' else ''offline'') \<noteq> lastStatus prev
      then 0 else currentStreakSeconds prev + deltaSeconds prev now)
   \<and> 0 \<le> deltaSeconds prev now
   \<and> ((if isOnline then ''online'' else ''offline'') = lastStatus prev \<longrightarrow>
        currentStreakSeconds prev \<le> currentStreakSeconds (computeDurations clock prev now isOnline))
   \<and> lastStatusChange (computeDurations clock prev now isOnline) =
     (if (if isOnline then ''online'' else ''offline'') \<noteq> lastStatus prev
      then Some (Iso now) else lastStatusChange prev)
   \<and> (lastStatusChange (computeDurations clock prev now isOnline) \<noteq> lastStatusChange prev \<longrightarrow>
        (if isOnline then ''online'' else ''offline'') \<noteq> lastStatus prev)"
  using deltaSeconds_nonneg [of prev now]
  by (simp add: computeDurations_fields)

theorem streak_and_status_change_witness:
  "currentStreakSeconds (computeDurations 5 offline_since_120 180000 False) = 60
   \<and> ''offline'' = lastStatus offline_since_120
   \<and> currentStreakSeconds offline_since_120
      \<le> currentStreakSeconds (computeDurations 5 offline_since_120 180000 False)
   \<and> lastStatusChange (computeDurations 5 offline_since_120 180000 False) = Some (Iso 120000)
   \<and> currentStreakSeconds (computeDurations 5 offline_since_120 180000 True) = 0
   \<and> lastStatusChange (computeDurations 5 offline_since_120 180000 True) = Some (Iso 180000)
   \<and> lastStatusChange (computeDurations 5 offline_since_120 180000 True)
      \<noteq> lastStatusChange offline_since_120
   \<and> ''online'' \<noteq> lastStatus offline_since_120"
proof -
  have d: "deltaSeconds offline_since_120 180000 = 60"
    by (simp add: deltaSeconds_def getTime_def offline_since_120_def)
  have f: "lastStatus offline_since_120 = ''offline''"
       "currentStreakSeconds offline_since_120 = 0"
       "lastStatusChange offline_since_120 = Some (Iso 120000)"
    by (simp_all add: offline_since_120_def)
  show ?thesis
    using streak_and_status_change [of 5 offline_since_120 180000 False]
          streak_and_status_change [of 5 offline_since_120 180000 True]
    by (simp add: d f)
qed

text \<open>
  C6. A second check at the same \<open>now\<close> with the same observation has a delta of 0 and
  returns the ledger of the first check, in every field, whatever the wall clock reads.
  The same holds for the whole cycle of the scheduled script and for the whole cycle of
  the page.
\<close>

theorem noop_tick_idempotent:
  "deltaSeconds (computeDurations clock prev now isOnline) now = 0
   \<and> computeDurations clock' (computeDurations clock prev now isOnline) now isOnline =
       computeDurations clock prev now isOnline
   \<and> main clock' (main clock prev now obs) now obs = main clock prev now obs
   \<and> checkServerStatus (checkServerStatus prev now outcome) now outcome =
       checkServerStatus prev now outcome"
proof -
  have "deltaSeconds (computeDurations clock prev now isOnline) now = 0"
    by (rule deltaSeconds_not_later [of _ now]) (simp_all add: lastChecked_computeDurations)
  then show ?thesis
    by (simp only: computeDurations_twice main_twice checkServerStatus_twice simp_thms)
qed

text \<open>
  C7. The delta is the seconds since the previous check clamped at zero, and 0 when there
  was no previous check; it is never negative. A check that is not later than the previous
  one has a delta of 0 and leaves both totals as they are; no check lowers a total; the
  new streak is 0 or the previous streak plus the delta; a recorded incident has a
  duration that is not negative. The first check on the default ledger has a delta of 0
  and returns totals of 0, an empty incident list and no outage. \<open>computeDurations\<close> has
  no failing branch to model: on a ledger of this type and a valid \<open>Date\<close> none of its
  operations throws (an unparsable timestamp gives \<open>NaN\<close>, which lines 51 and 76 test),
  so the embedding is a total function with no error result.
\<close>

theorem delta_clamped_and_first_check:
  "deltaSeconds prev now =
     (case lastChecked prev of
        Some (Iso t) \<Rightarrow> max 0 (of_int (now - t) / 1000)
      | _ \<Rightarrow> 0)
   \<and> 0 \<le> deltaSeconds prev now
   \<and> (lastChecked prev = None \<longrightarrow> deltaSeconds prev now = 0)
   \<and> (lastChecked prev = Some (Iso t) \<and> now \<le> t \<longrightarrow>
        deltaSeconds prev now = 0
        \<and> totalUpSeconds (computeDurations clock prev now isOnline) = totalUpSeconds prev
        \<and> totalDownSeconds (computeDurations clock prev now isOnline) = totalDownSeconds prev)
   \<and> totalUpSeconds prev \<le> totalUpSeconds (computeDurations clock prev now isOnline)
   \<and> totalDownSeconds prev \<le> totalDownSeconds (computeDurations clock prev now isOnline)
   \<and> (currentStreakSeconds (computeDurations clock prev now isOnline) = 0
      \<or> currentStreakSeconds (computeDurations clock prev now isOnline) =
          currentStreakSeconds prev + deltaSeconds prev now)
   \<and> (recovery prev now isOnline \<longrightarrow>
        0 \<le> duration (hd (incidents_or_empty
               (downtimeIncidents (computeDurations clock prev now isOnline)))))
   \<and> deltaSeconds defaultStructure now = 0
   \<and> computeDurations clock defaultStructure now isOnline =
       \<lparr>lastOnline = (if isOnline then Some (Iso now) else None),
        lastStatus = (if isOnline then ''online'' else ''offline''),
        lastStatusChange = Some (Iso now),
        currentStreakSeconds = 0, totalUpSeconds = 0, totalDownSeconds = 0,
        lastChecked = Some (Iso now), downtimeIncidents = Some [], totalOutages = Some 0,
        latency = None, error = None, portTest = None\<rparr>"
proof -
  let ?l = "computeDurations clock prev now isOnline"
  have h1: "deltaSeconds prev now =
     (case lastChecked prev of
        Some (Iso t) \<Rightarrow> max 0 (of_int (now - t) / 1000)
      | _ \<Rightarrow> 0)"
    by (rule deltaSeconds_cases)
  have h2: "0 \<le> deltaSeconds prev now"
    by (rule deltaSeconds_nonneg)
  have h3: "lastChecked prev = None \<longrightarrow> deltaSeconds prev now = 0"
    by (simp add: deltaSeconds_def)
  have h4: "lastChecked prev = Some (Iso t) \<and> now \<le> t \<longrightarrow>
        deltaSeconds prev now = 0
        \<and> totalUpSeconds ?l = totalUpSeconds prev
        \<and> totalDownSeconds ?l = totalDownSeconds prev"
    by (simp add: deltaSeconds_not_later computeDurations_fields)
  have h5: "totalUpSeconds prev \<le> totalUpSeconds ?l"
    using h2 by (simp add: computeDurations_fields)
  have h6: "totalDownSeconds prev \<le> totalDownSeconds ?l"
    using h2 by (simp add: computeDurations_fields)
  have h7: "currentStreakSeconds ?l = 0
      \<or> currentStreakSeconds ?l = currentStreakSeconds prev + deltaSeconds prev now"
    by (simp add: computeDurations_fields)
  have h8: "recovery prev now isOnline \<longrightarrow>
        0 \<le> duration (hd (incidents_or_empty (downtimeIncidents ?l)))"
    using recovery_outage_start [of prev now isOnline]
          duration_outage_incident_nonneg [of "outage_start prev" now clock]
    by (auto simp add: downtimeIncidents_computeDurations incidents_or_empty_simps)
  have h9: "deltaSeconds defaultStructure now = 0"
    by (simp add: deltaSeconds_def defaultStructure_def)
  have h10: "computeDurations clock defaultStructure now isOnline =
       \<lparr>lastOnline = (if isOnline then Some (Iso now) else None),
        lastStatus = (if isOnline then ''online'' else ''offline''),
        lastStatusChange = Some (Iso now),
        currentStreakSeconds = 0, totalUpSeconds = 0, totalDownSeconds = 0,
        lastChecked = Some (Iso now), downtimeIncidents = Some [], totalOutages = Some 0,
        latency = None, error = None, portTest = None\<rparr>"
    by (simp add: computeDurations_fields defaultStructure_def recovery_def
                  incidents_or_empty_simps outages_or0_simps)
  from h1 h2 h3 h4 h5 h6 h7 h8 h9 h10 show ?thesis
    by (intro conjI)
qed

theorem delta_clamped_and_first_check_witness:
  "lastChecked (defaultStructure\<lparr>lastStatus := ''online'', lastChecked := Some (Iso 60000)\<rparr>)
     = Some (Iso 60000)
   \<and> (0::int) \<le> 60000
   \<and> deltaSeconds (defaultStructure\<lparr>lastStatus := ''online'', lastChecked := Some (Iso 60000)\<rparr>) 0 = 0
   \<and> totalUpSeconds (computeDurations 1
        (defaultStructure\<lparr>lastStatus := ''online'', lastChecked := Some (Iso 60000)\<rparr>) 0 True) = 0
   \<and> lastChecked defaultStructure = None
   \<and> deltaSeconds defaultStructure 0 = 0
   \<and> recovery offline_since_120 180000 True
   \<and> 0 \<le> duration (hd (incidents_or_empty
            (downtimeIncidents (computeDurations 1 offline_since_120 180000 True))))"
proof -
  let ?p = "defaultStructure\<lparr>lastStatus := ''online'', lastChecked := Some (Iso 60000)\<rparr>"
  have a: "lastChecked ?p = Some (Iso 60000) \<and> (0::int) \<le> 60000"
    by simp
  have b: "totalUpSeconds ?p = 0"
    by (simp add: defaultStructure_def)
  have c: "lastChecked defaultStructure = None"
    by (simp add: defaultStructure_def)
  have r: "recovery offline_since_120 180000 True"
    by (simp add: recovery_def offline_since_120_def)
  show ?thesis
    using a b c r
          delta_clamped_and_first_check [of ?p 0 60000 1 True]
          delta_clamped_and_first_check [of defaultStructure 0 0 1 True]
          delta_clamped_and_first_check [of offline_since_120 180000 0 1 True]
    by simp
qed

text \<open>
  C8, as stated, fails: the \<open>id\<close> of a new incident is \<open>Date.now()\<close>, read from the wall
  clock inside \<open>computeDurations\<close>. The same previous ledger, \<open>now\<close> and observation give
  different ledgers when the clock reads 1 and when it reads 2.
\<close>

theorem id_depends_on_clock_counterexample:
  "computeDurations 1 offline_since_120 180000 True
     \<noteq> computeDurations 2 offline_since_120 180000 True"
proof
  assume e: "computeDurations 1 offline_since_120 180000 True
            = computeDurations 2 offline_since_120 180000 True"
  have r: "recovery offline_since_120 180000 True"
    by (simp add: recovery_def offline_since_120_def)
  from r e have "(1::int) = 2" by (rule newest_id_decides)
  then show False by simp
qed

text \<open>
  C8, amended. For the same previous ledger, \<open>now\<close> and observation, two calls of
  \<open>computeDurations\<close> return ledgers that differ at most in the \<open>id\<close> of the incident
  recorded by the call, which is the reading of the wall clock; they return the same
  ledger exactly when the two readings are equal or no incident is recorded.
\<close>

theorem deterministic_up_to_id:
  "computeDurations clock' prev now isOnline =
     (if recovery prev now isOnline
      then with_newest_id clock' (computeDurations clock prev now isOnline)
      else computeDurations clock prev now isOnline)
   \<and> (computeDurations clock prev now isOnline = computeDurations clock' prev now isOnline)
     = (clock = clock' \<or> \<not> recovery prev now isOnline)"
  using computeDurations_other_clock same_result_iff by (rule conjI)

theorem deterministic_up_to_id_witness:
  "recovery offline_since_120 180000 True
   \<and> computeDurations 2 offline_since_120 180000 True =
       with_newest_id 2 (computeDurations 1 offline_since_120 180000 True)
   \<and> \<not> recovery offline_since_120 180000 False
   \<and> computeDurations 2 offline_since_120 180000 False =
       computeDurations 1 offline_since_120 180000 False"
proof -
  have r: "recovery offline_since_120 180000 True"
    by (simp add: recovery_def offline_since_120_def)
  have n: "\<not> recovery offline_since_120 180000 False"
    by (simp add: recovery_def)
  have t: "computeDurations 2 offline_since_120 180000 True =
       with_newest_id 2 (computeDurations 1 offline_since_120 180000 True)"
    using deterministic_up_to_id [of 2 offline_since_120 180000 True 1]
    by (simp only: r if_True)
  have f: "computeDurations 2 offline_since_120 180000 False =
       computeDurations 1 offline_since_120 180000 False"
    using deterministic_up_to_id [of 2 offline_since_120 180000 False 1]
    by (simp only: n if_False)
  from r t n f show ?thesis by (intro conjI)
qed

text \<open>
  C9, as stated, fails for the page of \<open>is-csct.status.js\<close>: with nothing stored,
  \<open>getStoredStatus\<close> returns the ledger of \<open>getDefaultStatus\<close>, which has no incident
  list and no counter of outages.
\<close>

theorem page_default_without_incidents_counterexample:
  "getStoredStatus parse_none (Item None) = Inr getDefaultStatus
   \<and> downtimeIncidents getDefaultStatus \<noteq> Some []
   \<and> totalOutages getDefaultStatus \<noteq> Some 0"
  by (simp add: getStoredStatus_def getItem_def getDefaultStatus_def)

text \<open>
  C9, amended. Neither loader raises, whatever the store holds and whatever \<open>JSON.parse\<close>
  does: \<open>readStatusFile\<close> returns the parsed ledger when the file can be read and its text
  parses, and \<open>getStoredStatus\<close> when a non-empty text is stored and parses; otherwise
  each returns its default ledger. Both defaults have \<open>lastStatus\<close> \<open>unknown\<close>, no
  timestamps and totals of 0. The default of \<open>readStatusFile\<close> has an empty incident list
  and 0 outages; the default of \<open>getStoredStatus\<close> has neither field, which
  \<open>computeDurations\<close> reads as empty and as 0.
\<close>

theorem load_never_raises:
  "readStatusFile JSON_parse file =
     Inr (case file of
            None \<Rightarrow> defaultStructure
          | Some raw \<Rightarrow>
              (case JSON_parse raw of Inl e \<Rightarrow> defaultStructure | Inr status \<Rightarrow> status))
   \<and> getStoredStatus JSON_parse st =
     Inr (case st of
            Refused \<Rightarrow> getDefaultStatus
          | Item None \<Rightarrow> getDefaultStatus
          | Item (Some s) \<Rightarrow>
              (if s = [] then getDefaultStatus
               else (case JSON_parse s of Inl e \<Rightarrow> getDefaultStatus | Inr status \<Rightarrow> status)))
   \<and> defaultStructure =
       \<lparr>lastOnline = None, lastStatus = ''unknown'', lastStatusChange = None,
        currentStreakSeconds = 0, totalUpSeconds = 0, totalDownSeconds = 0,
        lastChecked = None, downtimeIncidents = Some [], totalOutages = Some 0,
        latency = None, error = None, portTest = None\<rparr>
   \<and> getDefaultStatus =
       defaultStructure\<lparr>downtimeIncidents := None, totalOutages := None\<rparr>
   \<and> incidents_or_empty (downtimeIncidents getDefaultStatus) = []
   \<and> outages_or0 (totalOutages getDefaultStatus) = 0"
  by (simp add: readStatusFile_def readFileSync_def getStoredStatus_def getItem_def
                defaultStructure_def getDefaultStatus_def incidents_or_empty_simps
                outages_or0_simps
           split: option.split sum.split storage.split)

theorem load_never_raises_witness:
  "readStatusFile parse_none None = Inr defaultStructure
   \<and> readStatusFile parse_none (Some ''{'') = Inr defaultStructure
   \<and> readStatusFile (parse_as offline_since_120) (Some ''{}'') = Inr offline_since_120
   \<and> getStoredStatus parse_none Refused = Inr getDefaultStatus
   \<and> getStoredStatus parse_none (Item (Some ''{'')) = Inr getDefaultStatus
   \<and> getStoredStatus (parse_as offline_since_120) (Item (Some [])) = Inr getDefaultStatus
   \<and> getStoredStatus (parse_as offline_since_120) (Item (Some ''{}'')) = Inr offline_since_120"
  using load_never_raises [of parse_none None Refused]
        load_never_raises [of parse_none "Some ''{''" "Item (Some ''{'')"]
        load_never_raises [of "parse_as offline_since_120" "Some ''{}''" "Item (Some [])"]
        load_never_raises [of "parse_as offline_since_120" "Some ''{}''" "Item (Some ''{}'')"]
  by (simp add: parse_none_def parse_as_def)

text \<open>
  C10. The ledger that \<open>computeDurations\<close> returns has \<open>lastStatus\<close> \<open>online\<close> or
  \<open>offline\<close>, as observed, and never \<open>unknown\<close>; so the next check on it adds its whole
  delta to one of the two totals.
\<close>

theorem status_never_unknown:
  "lastStatus (computeDurations clock prev now isOnline) =
     (if isOnline then ''online'' else ''offline'')
   \<and> lastStatus (computeDurations clock prev now isOnline) \<noteq> ''unknown''
   \<and> totalUpSeconds (computeDurations clock' (computeDurations clock prev now isOnline)
                       now' isOnline')
     + totalDownSeconds (computeDurations clock' (computeDurations clock prev now isOnline)
                       now' isOnline')
     = totalUpSeconds (computeDurations clock prev now isOnline)
     + totalDownSeconds (computeDurations clock prev now isOnline)
     + deltaSeconds (computeDurations clock prev now isOnline) now'"
proof -
  let ?l = "computeDurations clock prev now isOnline"
  have s: "lastStatus ?l = (if isOnline then ''online'' else ''offline'')"
    by (rule lastStatus_computeDurations)
  have "totalUpSeconds (computeDurations clock' ?l now' isOnline')
        + totalDownSeconds (computeDurations clock' ?l now' isOnline')
        = totalUpSeconds ?l + totalDownSeconds ?l + deltaSeconds ?l now'"
    by (subst (1 2) computeDurations_fields [of clock' ?l]) (simp add: s)
  with s show ?thesis by simp
qed

end
